theory Spec2Isabelle
  imports Main "HOL-Library.Word"
begin

section \<open>JavaScript values used by the decoder\<close>

text \<open>
  A JavaScript string is a sequence of UTF-16 code units; \<open>str.split('')\<close> and
  \<open>String.length\<close> count code units. A string literal of the source is written
  \<open>js ''...''\<close>.
\<close>

type_synonym code_unit = "16 word"
type_synonym jsstring = "code_unit list"

definition js :: "string \<Rightarrow> jsstring" where
  "js s = map of_char s"

text \<open>
  The numbers of the decoder are the results of \<open>parseInt\<close>, the fields of
  \<open>lastParsedEntry\<close> (which starts as the empty object, so its fields read
  \<open>undefined\<close>) and the sum \<open>offset + length\<close>. Each of them is
  \<open>undefined\<close>, \<open>NaN\<close>, an infinity, or a double whose value is an integer:
  \<open>Num n\<close> is the double of value \<open>n\<close> (the two zeros are not told apart: both
  name the property "0" and both differ from \<open>-1\<close>).
\<close>

datatype jsnumber = Undefined | NaN | Infinity | NegInfinity | Num int

text \<open>
  The Number value of a mathematical integer: the nearest double, ties to the even
  significand, and an infinity from \<open>2^1024\<close> on. An integer of at most 53 bits is a
  double already. \<open>bitlen m\<close> is the number of bits of \<open>m\<close>.
\<close>

function bitlen :: "int \<Rightarrow> nat" where
  "bitlen m = (if m \<le> 0 then 0 else Suc (bitlen (m div 2)))"
  by pat_completeness auto
termination
  by (relation "measure nat") auto

declare bitlen.simps [simp del]

definition toNumber :: "int \<Rightarrow> jsnumber" where
  "toNumber v =
     (let m = \<bar>v\<bar>; e = bitlen m in
      if e \<le> 53 then Num v
      else
        (let sh = e - 53; q = m div 2 ^ sh; r = m mod 2 ^ sh;
             q' = (if 2 ^ sh < 2 * r \<or> (2 * r = 2 ^ sh \<and> odd q) then q + 1 else q);
             w = q' * 2 ^ sh
         in if 2 ^ 1024 \<le> w then (if v < 0 then NegInfinity else Infinity)
            else Num (if v < 0 then - w else w)))"

text \<open>
  An object with numeric keys is the list of its own properties in enumeration order:
  \<open>obj[k]\<close> is \<open>map_of obj k\<close> and \<open>_.keys(obj)\<close> is \<open>map fst obj\<close>.
  A table that the decoder builds is a map. Reading a table at a key that is
  \<open>undefined\<close>, \<open>NaN\<close> or an infinity reads the property named "undefined",
  "NaN", "Infinity" or "-Infinity", which no table keyed by numbers has.
\<close>

definition getProp :: "(int \<rightharpoonup> 'a) \<Rightarrow> jsnumber \<Rightarrow> 'a option" where
  "getProp obj k =
     (case k of
        Num n \<Rightarrow> obj n
      | Undefined \<Rightarrow> None
      | NaN \<Rightarrow> None
      | Infinity \<Rightarrow> None
      | NegInfinity \<Rightarrow> None)"

text \<open>
  \<open>a + b\<close> on numbers: the sum of two doubles is the double nearest to their exact
  sum, opposite infinities add up to \<open>NaN\<close>, \<open>undefined\<close> converts to \<open>NaN\<close>,
  and \<open>NaN\<close> absorbs.
\<close>

fun jsAdd :: "jsnumber \<Rightarrow> jsnumber \<Rightarrow> jsnumber" where
  "jsAdd (Num a) (Num b) = toNumber (a + b)"
| "jsAdd Infinity NegInfinity = NaN"
| "jsAdd NegInfinity Infinity = NaN"
| "jsAdd Infinity Infinity = Infinity"
| "jsAdd Infinity (Num b) = Infinity"
| "jsAdd (Num a) Infinity = Infinity"
| "jsAdd NegInfinity NegInfinity = NegInfinity"
| "jsAdd NegInfinity (Num b) = NegInfinity"
| "jsAdd (Num a) NegInfinity = NegInfinity"
| "jsAdd _ _ = NaN"

text \<open>
  The parameter \<open>sourceCodes\<close> has the type \<open>{ [fileIndex: number]: string }\<close>,
  which a plain object and an array both have. \<open>PlainObject ps\<close> is the object with
  the own properties \<open>ps\<close>; \<open>ArrayLike n ps\<close> is an array (or any object with a
  \<open>length\<close>) of length \<open>n\<close> with the own properties \<open>ps\<close>, an index below
  \<open>n\<close> that is no key of \<open>ps\<close> being a hole. \<open>mapKeys\<close> are the keys that
  lodash's \<open>_.map\<close> calls its function with: the own keys of a plain object, and
  every index below the length of an array, holes included.
\<close>

datatype 'a indexed = PlainObject "(int \<times> 'a) list" | ArrayLike nat "(int \<times> 'a) list"

fun properties :: "'a indexed \<Rightarrow> (int \<times> 'a) list" where
  "properties (PlainObject ps) = ps"
| "properties (ArrayLike n ps) = ps"

fun mapKeys :: "'a indexed \<Rightarrow> int list" where
  "mapKeys (PlainObject ps) = map fst ps"
| "mapKeys (ArrayLike n ps) = map int [0..<n]"

text \<open>\<open>_.isNaN\<close> is true of the number \<open>NaN\<close> only, not of \<open>undefined\<close>.\<close>

fun isNaN :: "jsnumber \<Rightarrow> bool" where
  "isNaN NaN = True"
| "isNaN _ = False"

subsection \<open>\<open>String.prototype.split\<close> with a one-character separator\<close>

text \<open>The empty string splits into one empty piece; \<open>n\<close> separators give \<open>n + 1\<close> pieces.\<close>

fun consFirst :: "'a \<Rightarrow> 'a list list \<Rightarrow> 'a list list" where
  "consFirst c (piece # pieces) = (c # piece) # pieces"
| "consFirst c [] = [[c]]"

fun split_str :: "code_unit \<Rightarrow> jsstring \<Rightarrow> jsstring list" where
  "split_str sep [] = [[]]"
| "split_str sep (c # cs) =
     (if c = sep then [] # split_str sep cs else consFirst c (split_str sep cs))"

text \<open>Array destructuring: the element at an index, \<open>undefined\<close> (\<open>None\<close>) past the end.\<close>

definition nth_opt :: "'a list \<Rightarrow> nat \<Rightarrow> 'a option" where
  "nth_opt xs n = (if n < length xs then Some (xs ! n) else None)"

subsection \<open>\<open>parseInt(string, 10)\<close>\<close>

text \<open>
  ECMAScript's \<open>parseInt\<close> with radix 10: the argument is converted to a string
  (\<open>undefined\<close> to "undefined"), leading white space and line terminators are
  dropped, one sign is read, and the longest prefix of decimal digits is the value,
  as a Number; whatever follows the digits is ignored. With no digit the result is
  \<open>NaN\<close>. (The standard lets an implementation read the digits after the 20th as
  zeros; the engine that runs this code reads them all.)
\<close>

definition isWhiteSpace :: "code_unit \<Rightarrow> bool" where
  "isWhiteSpace c =
     (c \<in> set [0x0009, 0x000A, 0x000B, 0x000C, 0x000D, 0x0020, 0x00A0, 0x1680,
                0x2000, 0x2001, 0x2002, 0x2003, 0x2004, 0x2005, 0x2006, 0x2007,
                0x2008, 0x2009, 0x200A, 0x2028, 0x2029, 0x202F, 0x205F, 0x3000,
                0xFEFF])"

definition isDigit :: "code_unit \<Rightarrow> bool" where
  "isDigit c = (0x30 \<le> c \<and> c \<le> 0x39)"

definition digitsValue :: "jsstring \<Rightarrow> int" where
  "digitsValue Z = foldl (\<lambda>acc c. 10 * acc + (uint c - 0x30)) 0 Z"

definition parseInt :: "jsstring option \<Rightarrow> jsnumber" where
  "parseInt string =
     (let inputString = (case string of None \<Rightarrow> js ''undefined'' | Some s \<Rightarrow> s);
          S = dropWhile isWhiteSpace inputString;
          sign = (if S \<noteq> [] \<and> hd S = of_char CHR ''-'' then - 1 else 1);
          S' = (if S \<noteq> [] \<and> (hd S = of_char CHR ''+'' \<or> hd S = of_char CHR ''-'')
                then tl S else S);
          Z = takeWhile isDigit S'
      in if Z = [] then NaN else toNumber (sign * digitsValue Z))"

section \<open>The decoder of \<open>source_maps.ts\<close>\<close>

record SourceLocation =
  offset :: jsnumber
  length_f :: jsnumber
  fileIndex :: jsnumber

text \<open>\<open>lastParsedEntry\<close> starts as \<open>{}\<close>: every field reads \<open>undefined\<close>.\<close>

definition emptyEntry :: SourceLocation where
  "emptyEntry = \<lparr>offset = Undefined, length_f = Undefined, fileIndex = Undefined\<rparr>"

text \<open>
  Lines 58 to 71 of the callback: the entry is split at the colons, the first three
  fields are parsed, and a field that parses to \<open>NaN\<close> takes the value of
  \<open>lastParsedEntry\<close>. The fourth field (the jump type) is bound and never read.
\<close>

definition parseEntry :: "SourceLocation \<Rightarrow> jsstring \<Rightarrow> SourceLocation" where
  "parseEntry lastParsedEntry entry =
     (let fields = split_str (of_char CHR '':'') entry;
          instructionIndexIfExists = parseInt (nth_opt fields 0);
          lengthIfExists = parseInt (nth_opt fields 1);
          fileIndexIfExists = parseInt (nth_opt fields 2)
      in \<lparr>offset = (if isNaN instructionIndexIfExists then offset lastParsedEntry
                      else instructionIndexIfExists),
          length_f = (if isNaN lengthIfExists then length_f lastParsedEntry else lengthIfExists),
          fileIndex = (if isNaN fileIndexIfExists then fileIndex lastParsedEntry
                       else fileIndexIfExists)\<rparr>)"

subsection \<open>\<open>getLocationByOffset\<close>\<close>

datatype error = TypeError | Error jsstring

record LineColumn =
  line :: nat
  column :: nat

type_synonym LocationByOffset = "int \<rightharpoonup> LineColumn"

text \<open>
  The loop over \<open>str.split('')\<close>, one code unit at a time, with the table and
  \<open>currentOffset\<close> as its state. Reading \<open>location.line\<close> when
  \<open>locationByOffset[currentOffset]\<close> is \<open>undefined\<close> would raise a TypeError.
\<close>

fun getLocationByOffset_loop ::
  "jsstring \<Rightarrow> LocationByOffset \<Rightarrow> int \<Rightarrow> error + LocationByOffset" where
  "getLocationByOffset_loop [] locationByOffset currentOffset = Inr locationByOffset"
| "getLocationByOffset_loop (char # rest) locationByOffset currentOffset =
     (case locationByOffset currentOffset of
        None \<Rightarrow> Inl TypeError
      | Some location \<Rightarrow>
          getLocationByOffset_loop rest
            (locationByOffset(currentOffset + 1 \<mapsto>
               \<lparr>line = line location + (if char = 0x0A then 1 else 0),
                column = (if char = 0x0A then 0 else column location + 1)\<rparr>))
            (currentOffset + 1))"

definition getLocationByOffset :: "jsstring \<Rightarrow> error + LocationByOffset" where
  "getLocationByOffset str =
     getLocationByOffset_loop str (Map.empty(0 \<mapsto> \<lparr>line = 1, column = 0\<rparr>)) 0"

subsection \<open>\<open>parseSourceMap\<close>\<close>

record SingleFileSourceRange =
  start :: LineColumn
  end_f :: LineColumn

record SourceRange =
  location :: SingleFileSourceRange
  fileName :: "jsstring option"

text \<open>
  Lines 49 to 52: \<open>_.map\<close> calls its function with \<open>sourceCodes[key]\<close> for every
  key of \<open>mapKeys sourceCodes\<close>, and the function stores the offset table of the text,
  the empty table when the value is \<open>undefined\<close>. A value of \<open>sourceCodes\<close> is
  \<open>Some text\<close> or \<open>None\<close> for \<open>undefined\<close>, and reading a hole gives
  \<open>undefined\<close> too.
\<close>

definition tableOf :: "jsstring option \<Rightarrow> error + LocationByOffset" where
  "tableOf sourceCode =
     (case sourceCode of None \<Rightarrow> Inr Map.empty | Some str \<Rightarrow> getLocationByOffset str)"

fun mapSourceCodes ::
  "jsstring option indexed \<Rightarrow> int list \<Rightarrow> (int \<rightharpoonup> LocationByOffset)
     \<Rightarrow> error + (int \<rightharpoonup> LocationByOffset)" where
  "mapSourceCodes sourceCodes [] locationByOffsetByFileIndex = Inr locationByOffsetByFileIndex"
| "mapSourceCodes sourceCodes (key # keys) locationByOffsetByFileIndex =
     (case tableOf (Option.bind (map_of (properties sourceCodes) key) id) of
        Inl e \<Rightarrow> Inl e
      | Inr locationByOffset \<Rightarrow>
          mapSourceCodes sourceCodes keys
            (locationByOffsetByFileIndex(key \<mapsto> locationByOffset)))"

text \<open>The message of the error of line 82; an \<open>undefined\<close> file name prints as "undefined".\<close>

definition outOfRangeMessage :: "jsstring option \<Rightarrow> jsstring" where
  "outOfRangeMessage name =
     js ''Error while processing sourcemap: location out of range in ''
       @ (case name of None \<Rightarrow> js ''undefined'' | Some n \<Rightarrow> n)"

text \<open>
  Lines 72 to 88 of the callback, for one \<open>parsedEntry\<close>: \<open>Inr None\<close> when the
  entry is left unmapped (the empty else branch), \<open>Inr (Some sourceRange)\<close> when
  \<open>instructionIndexToSourceRange[i]\<close> is assigned, \<open>Inl\<close> for the throw.
\<close>

definition resolveRange ::
  "(int \<rightharpoonup> LocationByOffset) \<Rightarrow> (int \<times> jsstring) list \<Rightarrow> SourceLocation
     \<Rightarrow> error + SourceRange option" where
  "resolveRange locationByOffsetByFileIndex sources parsedEntry =
     (if fileIndex parsedEntry \<noteq> Num (- 1) then
        (case getProp locationByOffsetByFileIndex (fileIndex parsedEntry) of
           None \<Rightarrow> Inr None
         | Some locationByOffset \<Rightarrow>
             (let name = getProp (map_of sources) (fileIndex parsedEntry) in
              case getProp locationByOffset (offset parsedEntry) of
                None \<Rightarrow> Inl (Error (outOfRangeMessage name))
              | Some s \<Rightarrow>
                  (case getProp locationByOffset
                          (jsAdd (offset parsedEntry) (length_f parsedEntry)) of
                     None \<Rightarrow> Inl (Error (outOfRangeMessage name))
                   | Some e \<Rightarrow>
                       Inr (Some \<lparr>location = \<lparr>start = s, end_f = e\<rparr>, fileName = name\<rparr>))))
      else Inr None)"

text \<open>
  The loop \<open>_.each(entries, (entry, i) => ...)\<close> of lines 56 to 90, with
  \<open>lastParsedEntry\<close> and \<open>instructionIndexToSourceRange\<close> as its state; the
  loop returns both as they are after the last entry. A throw ends the loop and the
  whole call.
\<close>

fun eachEntry ::
  "(int \<rightharpoonup> LocationByOffset) \<Rightarrow> (int \<times> jsstring) list \<Rightarrow> jsstring list \<Rightarrow> nat
     \<Rightarrow> SourceLocation \<Rightarrow> (nat \<rightharpoonup> SourceRange)
     \<Rightarrow> error + SourceLocation \<times> (nat \<rightharpoonup> SourceRange)" where
  "eachEntry tables sources [] i lastParsedEntry instructionIndexToSourceRange =
     Inr (lastParsedEntry, instructionIndexToSourceRange)"
| "eachEntry tables sources (entry # entries) i lastParsedEntry instructionIndexToSourceRange =
     (case resolveRange tables sources (parseEntry lastParsedEntry entry) of
        Inl e \<Rightarrow> Inl e
      | Inr None \<Rightarrow>
          eachEntry tables sources entries (i + 1) (parseEntry lastParsedEntry entry)
            instructionIndexToSourceRange
      | Inr (Some sourceRange) \<Rightarrow>
          eachEntry tables sources entries (i + 1) (parseEntry lastParsedEntry entry)
            (instructionIndexToSourceRange(i \<mapsto> sourceRange)))"

text \<open>
  Lines 91 to 96: every key of \<open>pcToInstructionIndex\<close> is written to the result with
  the value \<open>instructionIndexToSourceRange[instructionIndex]\<close>, which is
  \<open>undefined\<close> (\<open>None\<close>) when that instruction has no range. A program counter
  is a natural number; \<open>parseInt\<close> of its key gives the number back.
\<close>

definition rekey :: "(nat \<times> nat) list \<Rightarrow> (nat \<rightharpoonup> SourceRange) \<Rightarrow> (nat \<rightharpoonup> SourceRange option)" where
  "rekey pcToInstructionIndex instructionIndexToSourceRange =
     fold (\<lambda>pc pcsToSourceRange.
             pcsToSourceRange(pc \<mapsto>
               Option.bind (map_of pcToInstructionIndex pc) instructionIndexToSourceRange))
          (map fst pcToInstructionIndex) Map.empty"

text \<open>
  \<open>parseSourceMap\<close>. The mapping \<open>pcToInstructionIndex\<close> is what
  \<open>getPcToInstructionIndexMapping\<close> (of \<open>./instructions\<close>) returns for the
  bytecode; it stands in the place of \<open>bytecodeHex\<close>. In the result a key with the
  value \<open>None\<close> is a program counter whose value is \<open>undefined\<close>.
\<close>

definition parseSourceMap ::
  "jsstring option indexed \<Rightarrow> jsstring \<Rightarrow> (nat \<times> nat) list \<Rightarrow> (int \<times> jsstring) list
     \<Rightarrow> error + (nat \<rightharpoonup> SourceRange option)" where
  "parseSourceMap sourceCodes srcMap pcToInstructionIndex sources =
     (case mapSourceCodes sourceCodes (mapKeys sourceCodes) Map.empty of
        Inl e \<Rightarrow> Inl e
      | Inr locationByOffsetByFileIndex \<Rightarrow>
          (case eachEntry locationByOffsetByFileIndex sources
                  (split_str (of_char CHR '';'') srcMap) 0 emptyEntry Map.empty of
             Inl e \<Rightarrow> Inl e
           | Inr (lastParsedEntry, instructionIndexToSourceRange) \<Rightarrow>
               Inr (rekey pcToInstructionIndex instructionIndexToSourceRange)))"

section \<open>Notions used to state the properties\<close>

subsection \<open>Raw entries, raw fields and resolved entries\<close>

text \<open>
  The entries of a source map are the pieces of \<open>srcMap.split(';')\<close>, and the fields of
  an entry the pieces of \<open>entry.split(':')\<close>; a field past the last piece is
  \<open>undefined\<close> (\<open>None\<close>).
\<close>

definition entriesOf :: "jsstring \<Rightarrow> jsstring list" where
  "entriesOf srcMap = split_str (of_char CHR '';'') srcMap"

definition fieldOf :: "jsstring \<Rightarrow> nat \<Rightarrow> jsstring option" where
  "fieldOf entry n = nth_opt (split_str (of_char CHR '':'') entry) n"

text \<open>
  The value of \<open>parsedEntry\<close> at each round of the loop over the entries, when the
  loop starts from \<open>lastParsedEntry\<close>: each entry is resolved against the one before it.
  \<open>resolvedEntries srcMap\<close> are the resolved entries of a whole source map. Lemma
  \<open>eachEntry_prefix\<close> shows that the entry at position \<open>j\<close> is the value of
  \<open>lastParsedEntry\<close> that the loop \<open>eachEntry\<close> has after round \<open>j\<close>, and
  lemma \<open>eachEntry_Inr\<close> that the loop stores at \<open>j\<close> the range of that entry.
\<close>

fun resolveEntries :: "SourceLocation \<Rightarrow> jsstring list \<Rightarrow> SourceLocation list" where
  "resolveEntries lastParsedEntry [] = []"
| "resolveEntries lastParsedEntry (entry # entries) =
     parseEntry lastParsedEntry entry
       # resolveEntries (parseEntry lastParsedEntry entry) entries"

definition resolvedEntries :: "jsstring \<Rightarrow> SourceLocation list" where
  "resolvedEntries srcMap = resolveEntries emptyEntry (split_str (of_char CHR '';'') srcMap)"

text \<open>
  A field that \<open>parseInt\<close> reads no integer from: it is missing, or, after leading
  white space and one optional sign, it does not start with a decimal digit (the empty
  field is the first case of it). Lemma \<open>parseInt_NaN_iff\<close> shows that these are the
  fields that parse to \<open>NaN\<close>.
\<close>

definition noLeadingInt :: "jsstring option \<Rightarrow> bool" where
  "noLeadingInt field =
     (case field of
        None \<Rightarrow> True
      | Some s \<Rightarrow>
          (case dropWhile isWhiteSpace s of
             [] \<Rightarrow> True
           | c # cs \<Rightarrow>
               if c = of_char CHR ''+'' \<or> c = of_char CHR ''-''
               then (case cs of [] \<Rightarrow> True | d # ds \<Rightarrow> \<not> isDigit d)
               else \<not> isDigit c))"

text \<open>
  The integer that the sign and the leading digits of such a field spell: \<open>decimal\<close>
  is the value of a run of digits by the weight of each position.
\<close>

fun decimal :: "jsstring \<Rightarrow> int" where
  "decimal [] = 0"
| "decimal (d # ds) = (uint d - 0x30) * 10 ^ length ds + decimal ds"

definition leadingInt :: "jsstring option \<Rightarrow> int" where
  "leadingInt field =
     (case field of
        None \<Rightarrow> 0
      | Some s \<Rightarrow>
          (case dropWhile isWhiteSpace s of
             [] \<Rightarrow> 0
           | c # cs \<Rightarrow>
               if c = of_char CHR ''-'' then - decimal (takeWhile isDigit cs)
               else if c = of_char CHR ''+'' then decimal (takeWhile isDigit cs)
               else decimal (takeWhile isDigit (c # cs))))"

text \<open>
  A well-formed base-10 integer, in the words of the specification: decimal digits, at
  least one, after an optional minus sign, and nothing else.
\<close>

definition wellFormedInt :: "jsstring \<Rightarrow> bool" where
  "wellFormedInt s =
     (case s of
        [] \<Rightarrow> False
      | c # cs \<Rightarrow> if c = of_char CHR ''-'' then cs \<noteq> [] \<and> list_all isDigit cs
                 else list_all isDigit (c # cs))"

text \<open>
  Two source maps that differ only in the fourth field of their entries: they have the
  same number of entries, and entries at the same position have the same first three
  fields and the same fields after the fourth.
\<close>

definition sameButJumpType :: "jsstring \<Rightarrow> jsstring \<Rightarrow> bool" where
  "sameButJumpType srcMap1 srcMap2 =
     list_all2
       (\<lambda>entry1 entry2.
          take 3 (split_str (of_char CHR '':'') entry1) = take 3 (split_str (of_char CHR '':'') entry2) \<and>
          drop 4 (split_str (of_char CHR '':'') entry1) = drop 4 (split_str (of_char CHR '':'') entry2))
       (split_str (of_char CHR '';'') srcMap1) (split_str (of_char CHR '';'') srcMap2)"

subsection \<open>The offset table in closed form\<close>

text \<open>
  The position that the loop of \<open>getLocationByOffset\<close> records after a run of code
  units: \<open>advance\<close> is one round of the loop on the current position, and
  \<open>offsetTable\<close> is the table in closed form (lemma
  \<open>getLocationByOffset_offsetTable\<close> shows it is the table the loop returns).
  \<open>tableOfText\<close> is the table of a value of \<open>sourceCodes\<close>.
\<close>

definition advance :: "LineColumn \<Rightarrow> code_unit \<Rightarrow> LineColumn" where
  "advance loc c =
     \<lparr>line = line loc + (if c = 0x0A then 1 else 0),
      column = (if c = 0x0A then 0 else column loc + 1)\<rparr>"

definition positionAfter :: "jsstring \<Rightarrow> LineColumn" where
  "positionAfter str = foldl advance \<lparr>line = 1, column = 0\<rparr> str"

definition offsetTable :: "jsstring \<Rightarrow> LocationByOffset" where
  "offsetTable str k =
     (if 0 \<le> k \<and> k \<le> int (length str) then Some (positionAfter (take (nat k) str)) else None)"

definition tableOfText :: "jsstring option \<Rightarrow> LocationByOffset" where
  "tableOfText sourceCode = (case sourceCode of None \<Rightarrow> Map.empty | Some str \<Rightarrow> offsetTable str)"

subsection \<open>The tables of one call\<close>

text \<open>
  \<open>mapVisits sourceCodes f\<close>: \<open>_.map\<close> calls its function for the file index
  \<open>f\<close>, which is then an own key of a plain object or an index below the length of
  an array. \<open>valueAt sourceCodes f\<close> is \<open>sourceCodes[f]\<close>, \<open>None\<close> when it
  is \<open>undefined\<close>: the key holds \<open>undefined\<close>, or there is no such key.
\<close>

definition mapVisits :: "'a indexed \<Rightarrow> int \<Rightarrow> bool" where
  "mapVisits sourceCodes f = (f \<in> set (mapKeys sourceCodes))"

definition valueAt :: "'a option indexed \<Rightarrow> int \<Rightarrow> 'a option" where
  "valueAt sourceCodes f = Option.bind (map_of (properties sourceCodes) f) id"

text \<open>
  \<open>tablesFor sourceCodes\<close> is \<open>locationByOffsetByFileIndex\<close> as lines 49 to 52
  build it (lemma \<open>mapSourceCodes_tablesFor\<close>: building it never fails), and
  \<open>decodeEntries\<close> is \<open>instructionIndexToSourceRange\<close> as the loop of lines 56 to
  90 leaves it, or the error that the loop throws.
\<close>

definition tablesFor :: "jsstring option indexed \<Rightarrow> (int \<rightharpoonup> LocationByOffset)" where
  "tablesFor sourceCodes =
     (case mapSourceCodes sourceCodes (mapKeys sourceCodes) Map.empty of
        Inr tables \<Rightarrow> tables
      | Inl e \<Rightarrow> Map.empty)"

definition decodeEntries ::
  "(int \<rightharpoonup> LocationByOffset) \<Rightarrow> (int \<times> jsstring) list \<Rightarrow> jsstring
     \<Rightarrow> error + (nat \<rightharpoonup> SourceRange)" where
  "decodeEntries tables sources srcMap =
     (case eachEntry tables sources (split_str (of_char CHR '';'') srcMap) 0 emptyEntry
              Map.empty of
        Inl e \<Rightarrow> Inl e
      | Inr (lastParsedEntry, instructionIndexToSourceRange) \<Rightarrow>
          Inr instructionIndexToSourceRange)"

text \<open>
  The two outcomes of lines 72 to 88 that are not a source range. An entry is out of
  range when its file index is not \<open>-1\<close> and has an offset table, and \<open>offset\<close> or
  \<open>offset + length\<close> is not a key of that table. An entry is unmapped when its file
  index is \<open>-1\<close> or has no offset table.
\<close>

definition outOfRange :: "(int \<rightharpoonup> LocationByOffset) \<Rightarrow> SourceLocation \<Rightarrow> bool" where
  "outOfRange tables entry =
     (fileIndex entry \<noteq> Num (- 1) \<and>
      (case getProp tables (fileIndex entry) of
         None \<Rightarrow> False
       | Some locationByOffset \<Rightarrow>
           getProp locationByOffset (offset entry) = None \<or>
           getProp locationByOffset (jsAdd (offset entry) (length_f entry)) = None))"

definition unmapped :: "(int \<rightharpoonup> LocationByOffset) \<Rightarrow> SourceLocation \<Rightarrow> bool" where
  "unmapped tables entry =
     (fileIndex entry = Num (- 1) \<or> getProp tables (fileIndex entry) = None)"

section \<open>The offset table\<close>

lemma loop_spec:
  "tbl n = Some loc \<Longrightarrow>
   getLocationByOffset_loop rest tbl n =
     Inr (\<lambda>k. if n < k \<and> k \<le> n + int (length rest)
              then Some (foldl advance loc (take (nat (k - n)) rest)) else tbl k)"
proof (induction rest arbitrary: tbl n loc)
  case Nil
  then show ?case by (auto simp: fun_eq_iff)
next
  case (Cons c cs)
  let ?tbl' = "tbl(n + 1 \<mapsto> advance loc c)"
  have step: "getLocationByOffset_loop (c # cs) tbl n = getLocationByOffset_loop cs ?tbl' (n + 1)"
    using Cons.prems by (simp add: advance_def)
  have ih: "getLocationByOffset_loop cs ?tbl' (n + 1) =
     Inr (\<lambda>k. if n + 1 < k \<and> k \<le> n + 1 + int (length cs)
              then Some (foldl advance (advance loc c) (take (nat (k - (n + 1))) cs)) else ?tbl' k)"
    by (rule Cons.IH) simp
  have eq: "(\<lambda>k. if n + 1 < k \<and> k \<le> n + 1 + int (length cs)
              then Some (foldl advance (advance loc c) (take (nat (k - (n + 1))) cs)) else ?tbl' k)
          = (\<lambda>k. if n < k \<and> k \<le> n + int (length (c # cs))
              then Some (foldl advance loc (take (nat (k - n)) (c # cs))) else tbl k)"
  proof (rule ext)
    fix k
    show "(if n + 1 < k \<and> k \<le> n + 1 + int (length cs)
              then Some (foldl advance (advance loc c) (take (nat (k - (n + 1))) cs)) else ?tbl' k)
          = (if n < k \<and> k \<le> n + int (length (c # cs))
              then Some (foldl advance loc (take (nat (k - n)) (c # cs))) else tbl k)"
    proof (cases "n + 1 < k")
      case True
      then have "nat (k - n) = Suc (nat (k - (n + 1)))" by simp
      with True show ?thesis by simp
    next
      case False
      then show ?thesis by (cases "k = n + 1") auto
    qed
  qed
  show ?case unfolding step ih eq ..
qed

lemma getLocationByOffset_offsetTable: "getLocationByOffset str = Inr (offsetTable str)"
proof -
  have "getLocationByOffset str =
     Inr (\<lambda>k. if 0 < k \<and> k \<le> 0 + int (length str)
              then Some (foldl advance \<lparr>line = 1, column = 0\<rparr> (take (nat (k - 0)) str))
              else (Map.empty(0 \<mapsto> \<lparr>line = 1, column = 0\<rparr>)) k)"
    unfolding getLocationByOffset_def by (rule loop_spec) simp
  also have "(\<lambda>k. if 0 < k \<and> k \<le> 0 + int (length str)
              then Some (foldl advance \<lparr>line = 1, column = 0\<rparr> (take (nat (k - 0)) str))
              else (Map.empty(0 \<mapsto> \<lparr>line = 1, column = 0\<rparr>)) k) = offsetTable str"
    by (rule ext) (auto simp: offsetTable_def positionAfter_def)
  finally show ?thesis .
qed

lemma dom_offsetTable: "dom (offsetTable str) = {0..int (length str)}"
  by (auto simp: offsetTable_def dom_def)

lemma line_foldl_advance:
  "line (foldl advance loc xs) = line loc + length (filter (\<lambda>c. c = 0x0A) xs)"
  by (induction xs arbitrary: loc) (auto simp: advance_def)

lemma line_positionAfter: "line (positionAfter xs) = 1 + length (filter (\<lambda>c. c = 0x0A) xs)"
  by (simp add: positionAfter_def line_foldl_advance)

lemma column_after_newline: "column (positionAfter (xs @ [0x0A])) = 0"
  by (simp add: positionAfter_def advance_def)

text \<open>
  C7: for every source text \<open>T\<close>, the empty one included, \<open>getLocationByOffset\<close>
  returns a table whose keys are exactly the offsets \<open>0, ..., length T\<close>, that is
  \<open>length T + 1\<close> keys, and whose entry at 0 is line 1, column 0.
\<close>

theorem offset_table_keys:
  "\<exists>tbl. getLocationByOffset T = Inr tbl
     \<and> dom tbl = {0..int (length T)}
     \<and> card (dom tbl) = length T + 1
     \<and> tbl 0 = Some \<lparr>line = 1, column = 0\<rparr>"
  by (simp add: getLocationByOffset_offsetTable dom_offsetTable)
     (simp add: offsetTable_def positionAfter_def)

text \<open>
  C8: let \<open>T'\<close> be \<open>T\<close> with a newline inserted at position \<open>p\<close>. For every
  offset \<open>k > p\<close> of \<open>T\<close>, the table of \<open>T'\<close> at the shifted offset
  \<open>k + 1\<close> records a line one greater than the table of \<open>T\<close> records at
  \<open>k\<close>; and the position right after the inserted newline, at \<open>p + 1\<close>, has
  column 0.
\<close>

theorem newline_insertion:
  assumes "p \<le> length T"
  shows "\<exists>tbl tbl'. getLocationByOffset T = Inr tbl
     \<and> getLocationByOffset (take p T @ [0x0A] @ drop p T) = Inr tbl'
     \<and> (\<forall>k. p < k \<and> k \<le> length T \<longrightarrow>
           (\<exists>loc loc'. tbl (int k) = Some loc \<and> tbl' (int k + 1) = Some loc'
              \<and> line loc' = line loc + 1))
     \<and> (\<exists>loc'. tbl' (int p + 1) = Some loc' \<and> column loc' = 0)"
proof -
  let ?T' = "take p T @ [0x0A] @ drop p T"
  have len: "length ?T' = length T + 1" using assms by simp
  have lines: "line (positionAfter (take (k + 1) ?T')) = line (positionAfter (take k T)) + 1"
    if "p < k" "k \<le> length T" for k
  proof -
    have "take (k + 1) ?T' = take p T @ [0x0A] @ take (k - p) (drop p T)"
      using that assms by (simp add: min_def Suc_diff_le)
    moreover have "take k T = take p T @ take (k - p) (drop p T)"
      using that by (metis le_add_diff_inverse less_imp_le_nat take_add)
    ultimately show ?thesis by (simp add: line_positionAfter)
  qed
  have col: "column (positionAfter (take (p + 1) ?T')) = 0"
  proof -
    have "take (p + 1) ?T' = take p T @ [0x0A]" using assms by (simp add: min_def)
    then show ?thesis by (simp add: column_after_newline)
  qed
  show ?thesis
    unfolding getLocationByOffset_offsetTable
    using lines col len assms
    by (auto simp: offsetTable_def nat_add_distrib simp del: append.simps take_append)
qed

text \<open>The theorem at the text "ab" with a newline inserted between its two letters.\<close>

theorem newline_insertion_witness:
  "(1::nat) \<le> length (js ''ab'') \<and>
   (\<exists>tbl tbl'. getLocationByOffset (js ''ab'') = Inr tbl
      \<and> getLocationByOffset (js ''a'' @ [0x0A] @ js ''b'') = Inr tbl'
      \<and> (\<exists>loc loc'. tbl 2 = Some loc \<and> tbl' 3 = Some loc' \<and> line loc' = line loc + 1)
      \<and> (\<exists>loc'. tbl' 2 = Some loc' \<and> column loc' = 0))"
proof -
  have h: "(1::nat) \<le> length (js ''ab'')" by (simp add: js_def)
  have parts: "take 1 (js ''ab'') = js ''a''" "drop 1 (js ''ab'') = js ''b''"
    by (simp_all add: js_def)
  from newline_insertion [OF h] obtain tbl tbl' where
    t: "getLocationByOffset (js ''ab'') = Inr tbl"
      "getLocationByOffset (js ''a'' @ [0x0A] @ js ''b'') = Inr tbl'"
      "\<forall>k. 1 < k \<and> k \<le> length (js ''ab'') \<longrightarrow>
         (\<exists>loc loc'. tbl (int k) = Some loc \<and> tbl' (int k + 1) = Some loc'
            \<and> line loc' = line loc + 1)"
      "\<exists>loc'. tbl' (int 1 + 1) = Some loc' \<and> column loc' = 0"
    unfolding parts by blast
  have "(1::nat) < 2 \<and> 2 \<le> length (js ''ab'')" by (simp add: js_def)
  with t(3) have "\<exists>loc loc'. tbl (int 2) = Some loc \<and> tbl' (int 2 + 1) = Some loc'
            \<and> line loc' = line loc + 1"
    by blast
  with t(1,2,4) h show ?thesis by simp
qed

section \<open>Parsing and delta resolution of the entries\<close>

lemma not_isDigit_u: "\<not> isDigit (of_char CHR ''u'')"
  by (simp add: isDigit_def)

lemma not_isWhiteSpace_u: "\<not> isWhiteSpace (of_char CHR ''u'')"
  by (simp add: isWhiteSpace_def)

lemma takeWhile_Nil_iff: "takeWhile P xs = [] \<longleftrightarrow> (case xs of [] \<Rightarrow> True | x # _ \<Rightarrow> \<not> P x)"
  by (cases xs) auto

lemma parseInt_undefined: "parseInt None = NaN"
proof -
  have "dropWhile isWhiteSpace (js ''undefined'') = of_char CHR ''u'' # js ''ndefined''"
    using not_isWhiteSpace_u by (simp add: js_def)
  then show ?thesis
    using not_isDigit_u by (simp add: parseInt_def Let_def)
qed

lemma bitlen_le: "m < 2 ^ k \<Longrightarrow> bitlen m \<le> k"
proof (induction k arbitrary: m)
  case 0
  then show ?case by (simp add: bitlen.simps)
next
  case (Suc k)
  show ?case
  proof (cases "m \<le> 0")
    case True
    then show ?thesis by (simp add: bitlen.simps)
  next
    case False
    from Suc.prems have "m div 2 < 2 ^ k" by simp
    from Suc.IH [OF this] False show ?thesis by (subst bitlen.simps) simp
  qed
qed

lemma toNumber_exact: "\<bar>v\<bar> < 2 ^ 53 \<Longrightarrow> toNumber v = Num v"
proof -
  assume "\<bar>v\<bar> < 2 ^ 53"
  then have "bitlen \<bar>v\<bar> \<le> 53" by (rule bitlen_le)
  then show ?thesis by (simp add: toNumber_def Let_def)
qed

text \<open>
  The rounding at the first integers that are no doubles, and at the largest double:
  half of its last unit more is an infinity, anything less is not.
\<close>

lemma toNumber_rounds:
  "toNumber (2 ^ 53 + 1) = Num (2 ^ 53)"
  "toNumber (2 ^ 53 + 2) = Num (2 ^ 53 + 2)"
  "toNumber (2 ^ 53 + 3) = Num (2 ^ 53 + 4)"
  "toNumber (- (2 ^ 53) - 3) = Num (- (2 ^ 53) - 4)"
  "toNumber (2 ^ 1024 - 2 ^ 971) = Num (2 ^ 1024 - 2 ^ 971)"
  "toNumber (2 ^ 1024 - 2 ^ 970 - 1) = Num (2 ^ 1024 - 2 ^ 971)"
  "toNumber (2 ^ 1024 - 2 ^ 970) = Infinity"
  "toNumber (- (2 ^ 1024)) = NegInfinity"
  by code_simp+

lemma isNaN_toNumber: "\<not> isNaN (toNumber v)"
  by (simp add: toNumber_def Let_def)

lemma toNumber_defined: "toNumber v \<noteq> Undefined"
  by (simp add: toNumber_def Let_def)

lemma foldl_decimal:
  "foldl (\<lambda>acc c. 10 * acc + (uint c - 0x30)) a Z = a * 10 ^ length Z + decimal Z"
  by (induction Z arbitrary: a) (simp_all add: algebra_simps)

lemma digitsValue_decimal: "digitsValue Z = decimal Z"
  by (simp add: digitsValue_def foldl_decimal)

lemma plus_not_minus: "(of_char CHR ''+'' :: code_unit) \<noteq> of_char CHR ''-''"
  by simp

lemma sign_not_digit: "\<not> isDigit (of_char CHR ''+'')" "\<not> isDigit (of_char CHR ''-'')"
  by (simp_all add: isDigit_def)

lemma parseInt_Some:
  "parseInt (Some s) =
     (if noLeadingInt (Some s) then NaN else toNumber (leadingInt (Some s)))"
proof (cases "dropWhile isWhiteSpace s")
  case Nil
  show ?thesis unfolding parseInt_def noLeadingInt_def Let_def option.case Nil by simp
next
  case (Cons c cs)
  consider (minus) "c = of_char CHR ''-''" | (plus) "c = of_char CHR ''+''"
    | (other) "c \<noteq> of_char CHR ''-''" "c \<noteq> of_char CHR ''+''"
    by blast
  then show ?thesis
  proof cases
    case minus
    show ?thesis
      unfolding parseInt_def noLeadingInt_def leadingInt_def Let_def option.case Cons minus
      by (cases cs) (simp_all add: digitsValue_decimal)
  next
    case plus
    show ?thesis
      unfolding parseInt_def noLeadingInt_def leadingInt_def Let_def option.case Cons plus
      using plus_not_minus by (cases cs) (simp_all add: digitsValue_decimal)
  next
    case other
    then show ?thesis
      unfolding parseInt_def noLeadingInt_def leadingInt_def Let_def option.case Cons
      by (simp add: digitsValue_decimal)
  qed
qed

lemma parseInt_NaN_iff: "isNaN (parseInt field) \<longleftrightarrow> noLeadingInt field"
proof (cases field)
  case None
  then show ?thesis by (simp add: parseInt_undefined noLeadingInt_def)
next
  case (Some s)
  then show ?thesis by (simp add: parseInt_Some isNaN_toNumber)
qed

lemma parseInt_noLeadingInt: "noLeadingInt field \<Longrightarrow> parseInt field = NaN"
proof (cases field)
  case None
  then show ?thesis by (simp add: parseInt_undefined)
next
  case (Some s)
  assume "noLeadingInt field"
  with Some show ?thesis by (simp add: parseInt_Some)
qed

lemma parseInt_leadingInt:
  "\<not> noLeadingInt field \<Longrightarrow> parseInt field = toNumber (leadingInt field)"
proof (cases field)
  case None
  assume "\<not> noLeadingInt field"
  with None show ?thesis by (simp add: noLeadingInt_def)
next
  case (Some s)
  assume "\<not> noLeadingInt field"
  with Some show ?thesis by (simp add: parseInt_Some)
qed

lemma inherit_or_parse:
  "(noLeadingInt f \<longrightarrow> (if isNaN (parseInt f) then a else parseInt f) = a) \<and>
   (\<not> noLeadingInt f \<longrightarrow>
      (if isNaN (parseInt f) then a else parseInt f) = toNumber (leadingInt f) \<and>
      (\<bar>leadingInt f\<bar> < 2 ^ 53 \<longrightarrow>
         (if isNaN (parseInt f) then a else parseInt f) = Num (leadingInt f)))"
  using parseInt_noLeadingInt [of f] parseInt_leadingInt [of f] isNaN_toNumber [of "leadingInt f"]
    toNumber_exact [of "leadingInt f"]
  by auto

lemma offset_parseEntry:
  "offset (parseEntry l entry) =
     (if isNaN (parseInt (nth_opt (split_str (of_char CHR '':'') entry) 0)) then offset l
      else parseInt (nth_opt (split_str (of_char CHR '':'') entry) 0))"
  by (simp add: parseEntry_def Let_def)

lemma length_parseEntry:
  "length_f (parseEntry l entry) =
     (if isNaN (parseInt (nth_opt (split_str (of_char CHR '':'') entry) 1)) then length_f l
      else parseInt (nth_opt (split_str (of_char CHR '':'') entry) 1))"
  by (simp add: parseEntry_def Let_def)

lemma fileIndex_parseEntry:
  "fileIndex (parseEntry l entry) =
     (if isNaN (parseInt (nth_opt (split_str (of_char CHR '':'') entry) 2)) then fileIndex l
      else parseInt (nth_opt (split_str (of_char CHR '':'') entry) 2))"
  by (simp add: parseEntry_def Let_def)

lemma length_resolveEntries: "length (resolveEntries l es) = length es"
  by (induction es arbitrary: l) auto

lemma length_resolvedEntries: "length (resolvedEntries srcMap) = length (entriesOf srcMap)"
  by (simp add: resolvedEntries_def entriesOf_def length_resolveEntries)

text \<open>
  C4, as the claim states it, fails: the field "7x" is not a well-formed base-10 integer,
  and the entry "7x::" after an entry with offset 1 resolves to the offset 7, not to the
  inherited 1.
\<close>

theorem malformed_field_counterexample:
  "\<not> wellFormedInt (js ''7x'') \<and>
   nth_opt (split_str (of_char CHR '':'') (js ''7x::'')) 0 = Some (js ''7x'') \<and>
   offset (parseEntry \<lparr>offset = Num 1, length_f = Num 2, fileIndex = Num 0\<rparr> (js ''7x::'')) = Num 7"
  by code_simp

text \<open>
  C4, amended: a start-offset, length or file-index field that is missing, empty, or that
  after leading white space and one optional sign does not start with a decimal digit,
  takes the value of the previous resolved entry, in the same way in each of these
  cases and without an error. Every other field is read as a number, whatever follows
  its leading digits: as the Number value of the integer that its sign and leading
  digits spell, which is that integer itself when it is below \<open>2^53\<close> in size.
\<close>

theorem field_without_digits_inherits:
  "(noLeadingInt (fieldOf entry 0)
      \<longrightarrow> offset (parseEntry lastParsedEntry entry) = offset lastParsedEntry) \<and>
   (noLeadingInt (fieldOf entry 1)
      \<longrightarrow> length_f (parseEntry lastParsedEntry entry) = length_f lastParsedEntry) \<and>
   (noLeadingInt (fieldOf entry 2)
      \<longrightarrow> fileIndex (parseEntry lastParsedEntry entry) = fileIndex lastParsedEntry) \<and>
   (\<not> noLeadingInt (fieldOf entry 0)
      \<longrightarrow> offset (parseEntry lastParsedEntry entry) = toNumber (leadingInt (fieldOf entry 0)) \<and>
          (\<bar>leadingInt (fieldOf entry 0)\<bar> < 2 ^ 53 \<longrightarrow>
             offset (parseEntry lastParsedEntry entry) = Num (leadingInt (fieldOf entry 0)))) \<and>
   (\<not> noLeadingInt (fieldOf entry 1)
      \<longrightarrow> length_f (parseEntry lastParsedEntry entry) = toNumber (leadingInt (fieldOf entry 1)) \<and>
          (\<bar>leadingInt (fieldOf entry 1)\<bar> < 2 ^ 53 \<longrightarrow>
             length_f (parseEntry lastParsedEntry entry) = Num (leadingInt (fieldOf entry 1)))) \<and>
   (\<not> noLeadingInt (fieldOf entry 2)
      \<longrightarrow> fileIndex (parseEntry lastParsedEntry entry) = toNumber (leadingInt (fieldOf entry 2)) \<and>
          (\<bar>leadingInt (fieldOf entry 2)\<bar> < 2 ^ 53 \<longrightarrow>
             fileIndex (parseEntry lastParsedEntry entry) = Num (leadingInt (fieldOf entry 2))))"
proof -
  have f0: "offset (parseEntry lastParsedEntry entry) =
      (if isNaN (parseInt (fieldOf entry 0)) then offset lastParsedEntry
       else parseInt (fieldOf entry 0))"
    by (simp add: fieldOf_def offset_parseEntry)
  have f1: "length_f (parseEntry lastParsedEntry entry) =
      (if isNaN (parseInt (fieldOf entry 1)) then length_f lastParsedEntry
       else parseInt (fieldOf entry 1))"
    by (simp add: fieldOf_def length_parseEntry)
  have f2: "fileIndex (parseEntry lastParsedEntry entry) =
      (if isNaN (parseInt (fieldOf entry 2)) then fileIndex lastParsedEntry
       else parseInt (fieldOf entry 2))"
    by (simp add: fieldOf_def fileIndex_parseEntry)
  show ?thesis
    unfolding f0 f1 f2
    using inherit_or_parse [of "fieldOf entry 0" "offset lastParsedEntry"]
      inherit_or_parse [of "fieldOf entry 1" "length_f lastParsedEntry"]
      inherit_or_parse [of "fieldOf entry 2" "fileIndex lastParsedEntry"]
    by blast
qed

text \<open>
  The theorem at the entry ":x" (an empty field, a malformed one and a missing one: all
  three inherit), at the entry "7x:+5: 12" (three fields with leading digits: they are
  read as 7, 5 and 12), at the entries "9007199254740993" and "9007199254740995"
  (\<open>2^53 + 1\<close> and \<open>2^53 + 3\<close>, read as the doubles \<open>2^53\<close> and
  \<open>2^53 + 4\<close>).
\<close>

theorem field_without_digits_inherits_witness:
  "noLeadingInt (fieldOf (js '':x'') 0) \<and> noLeadingInt (fieldOf (js '':x'') 1) \<and>
   noLeadingInt (fieldOf (js '':x'') 2) \<and>
   parseEntry \<lparr>offset = Num 1, length_f = Num 2, fileIndex = Num 0\<rparr> (js '':x'') =
     \<lparr>offset = Num 1, length_f = Num 2, fileIndex = Num 0\<rparr> \<and>
   \<not> noLeadingInt (fieldOf (js ''7x:+5: 12'') 0) \<and>
   \<not> noLeadingInt (fieldOf (js ''7x:+5: 12'') 1) \<and>
   \<not> noLeadingInt (fieldOf (js ''7x:+5: 12'') 2) \<and>
   \<bar>leadingInt (fieldOf (js ''7x:+5: 12'') 0)\<bar> < 2 ^ 53 \<and>
   \<bar>leadingInt (fieldOf (js ''7x:+5: 12'') 1)\<bar> < 2 ^ 53 \<and>
   \<bar>leadingInt (fieldOf (js ''7x:+5: 12'') 2)\<bar> < 2 ^ 53 \<and>
   parseEntry emptyEntry (js ''7x:+5: 12'') =
     \<lparr>offset = Num 7, length_f = Num 5, fileIndex = Num 12\<rparr> \<and>
   \<not> noLeadingInt (fieldOf (js ''9007199254740993'') 0) \<and>
   offset (parseEntry emptyEntry (js ''9007199254740993'')) = Num 9007199254740992 \<and>
   \<not> noLeadingInt (fieldOf (js ''9007199254740995'') 0) \<and>
   offset (parseEntry emptyEntry (js ''9007199254740995'')) = Num 9007199254740996"
proof -
  let ?l = "\<lparr>offset = Num 1, length_f = Num 2, fileIndex = Num 0\<rparr>"
  have a: "noLeadingInt (fieldOf (js '':x'') 0)" "noLeadingInt (fieldOf (js '':x'') 1)"
    "noLeadingInt (fieldOf (js '':x'') 2)"
    by code_simp+
  have b: "\<not> noLeadingInt (fieldOf (js ''7x:+5: 12'') 0)"
    "\<not> noLeadingInt (fieldOf (js ''7x:+5: 12'') 1)"
    "\<not> noLeadingInt (fieldOf (js ''7x:+5: 12'') 2)"
    by code_simp+
  have v: "leadingInt (fieldOf (js ''7x:+5: 12'') 0) = 7"
    "leadingInt (fieldOf (js ''7x:+5: 12'') 1) = 5"
    "leadingInt (fieldOf (js ''7x:+5: 12'') 2) = 12"
    by code_simp+
  have c: "\<not> noLeadingInt (fieldOf (js ''9007199254740993'') 0)" by code_simp
  have w: "toNumber (leadingInt (fieldOf (js ''9007199254740993'') 0)) = Num 9007199254740992"
    by code_simp
  from a field_without_digits_inherits [of "js '':x''" ?l]
  have "offset (parseEntry ?l (js '':x'')) = Num 1 \<and>
        length_f (parseEntry ?l (js '':x'')) = Num 2 \<and>
        fileIndex (parseEntry ?l (js '':x'')) = Num 0"
    by simp
  then have r1: "parseEntry ?l (js '':x'') = ?l"
    by (cases "parseEntry ?l (js '':x'')") simp
  have sz: "\<bar>leadingInt (fieldOf (js ''7x:+5: 12'') 0)\<bar> < 2 ^ 53"
    "\<bar>leadingInt (fieldOf (js ''7x:+5: 12'') 1)\<bar> < 2 ^ 53"
    "\<bar>leadingInt (fieldOf (js ''7x:+5: 12'') 2)\<bar> < 2 ^ 53"
    unfolding v by simp_all
  from b sz field_without_digits_inherits [of "js ''7x:+5: 12''" emptyEntry]
  have "offset (parseEntry emptyEntry (js ''7x:+5: 12'')) =
          Num (leadingInt (fieldOf (js ''7x:+5: 12'') 0)) \<and>
        length_f (parseEntry emptyEntry (js ''7x:+5: 12'')) =
          Num (leadingInt (fieldOf (js ''7x:+5: 12'') 1)) \<and>
        fileIndex (parseEntry emptyEntry (js ''7x:+5: 12'')) =
          Num (leadingInt (fieldOf (js ''7x:+5: 12'') 2))"
    by blast
  then have "offset (parseEntry emptyEntry (js ''7x:+5: 12'')) = Num 7 \<and>
        length_f (parseEntry emptyEntry (js ''7x:+5: 12'')) = Num 5 \<and>
        fileIndex (parseEntry emptyEntry (js ''7x:+5: 12'')) = Num 12"
    unfolding v .
  then have r2: "parseEntry emptyEntry (js ''7x:+5: 12'') =
      \<lparr>offset = Num 7, length_f = Num 5, fileIndex = Num 12\<rparr>"
    by (cases "parseEntry emptyEntry (js ''7x:+5: 12'')") simp
  from c field_without_digits_inherits [of "js ''9007199254740993''" emptyEntry]
  have "offset (parseEntry emptyEntry (js ''9007199254740993'')) =
      toNumber (leadingInt (fieldOf (js ''9007199254740993'') 0))"
    by blast
  then have r3: "offset (parseEntry emptyEntry (js ''9007199254740993'')) = Num 9007199254740992"
    unfolding w .
  have c2: "\<not> noLeadingInt (fieldOf (js ''9007199254740995'') 0)" by code_simp
  have w2: "toNumber (leadingInt (fieldOf (js ''9007199254740995'') 0)) = Num 9007199254740996"
    by code_simp
  from c2 field_without_digits_inherits [of "js ''9007199254740995''" emptyEntry]
  have "offset (parseEntry emptyEntry (js ''9007199254740995'')) =
      toNumber (leadingInt (fieldOf (js ''9007199254740995'') 0))"
    by blast
  then have r4: "offset (parseEntry emptyEntry (js ''9007199254740995'')) = Num 9007199254740996"
    unfolding w2 .
  from a b sz c r1 r2 r3 c2 r4 show ?thesis by blast
qed

lemma nth_opt_take: "n < m \<Longrightarrow> nth_opt (take m xs) n = nth_opt xs n"
  by (simp add: nth_opt_def)

lemma parseEntry_take3:
  assumes "take 3 (split_str (of_char CHR '':'') entry1) = take 3 (split_str (of_char CHR '':'') entry2)"
  shows "parseEntry l entry1 = parseEntry l entry2"
proof -
  have "nth_opt (split_str (of_char CHR '':'') entry1) n = nth_opt (split_str (of_char CHR '':'') entry2) n"
    if "n < 3" for n
    using nth_opt_take [OF that, of "split_str (of_char CHR '':'') entry1"]
      nth_opt_take [OF that, of "split_str (of_char CHR '':'') entry2"] assms by simp
  from this [of 0] this [of 1] this [of 2] show ?thesis
    by (simp add: parseEntry_def Let_def)
qed

section \<open>The loop over the entries\<close>

lemma resolveRange_outOfRange:
  "outOfRange tables entry \<Longrightarrow>
   resolveRange tables sources entry =
     Inl (Error (outOfRangeMessage (getProp (map_of sources) (fileIndex entry))))"
  by (auto simp: outOfRange_def resolveRange_def Let_def split: option.splits)

lemma resolveRange_Inl:
  "resolveRange tables sources entry = Inl e \<Longrightarrow>
   outOfRange tables entry \<and>
   e = Error (outOfRangeMessage (getProp (map_of sources) (fileIndex entry)))"
  by (auto simp: outOfRange_def resolveRange_def Let_def split: option.splits if_splits)

lemma resolveRange_unmapped:
  "unmapped tables entry \<Longrightarrow> resolveRange tables sources entry = Inr None"
  by (auto simp: unmapped_def resolveRange_def)

lemma eachEntry_below:
  "eachEntry T S es i l tbl = Inr (l', tbl') \<Longrightarrow> k < i \<Longrightarrow> tbl' k = tbl k"
proof (induction es arbitrary: i l tbl)
  case Nil
  then show ?case by simp
next
  case (Cons a es)
  then show ?case
    by (fastforce split: sum.splits option.splits)
qed

lemma eachEntry_Inr:
  "eachEntry T S es i l tbl = Inr (l', tbl') \<Longrightarrow> (\<forall>n\<ge>i. tbl n = None) \<Longrightarrow> k < length es \<Longrightarrow>
   resolveRange T S (resolveEntries l es ! k) = Inr (tbl' (i + k))"
proof (induction es arbitrary: i l tbl k)
  case Nil
  then show ?case by simp
next
  case (Cons a es)
  obtain r where r: "resolveRange T S (parseEntry l a) = Inr r"
    using Cons.prems(1) by (cases "resolveRange T S (parseEntry l a)") auto
  define tbl1 where "tbl1 = (case r of None \<Rightarrow> tbl | Some sr \<Rightarrow> tbl(i \<mapsto> sr))"
  have rest: "eachEntry T S es (i + 1) (parseEntry l a) tbl1 = Inr (l', tbl')"
    using Cons.prems(1) r by (simp add: tbl1_def split: option.splits)
  have empty1: "\<forall>n\<ge>i + 1. tbl1 n = None"
    using Cons.prems(2) by (simp add: tbl1_def split: option.splits)
  show ?case
  proof (cases k)
    case 0
    have "tbl' i = tbl1 i" using eachEntry_below [OF rest, of i] by simp
    also have "\<dots> = r" using Cons.prems(2) by (simp add: tbl1_def split: option.splits)
    finally show ?thesis using 0 r by simp
  next
    case (Suc k')
    then have "k' < length es" using Cons.prems(3) by simp
    from Cons.IH [OF rest empty1 this] show ?thesis using Suc by simp
  qed
qed

lemma eachEntry_Inl:
  "eachEntry T S es i l tbl = Inl e \<Longrightarrow>
   \<exists>j<length es. resolveRange T S (resolveEntries l es ! j) = Inl e \<and>
     (\<forall>k<j. \<exists>r. resolveRange T S (resolveEntries l es ! k) = Inr r)"
proof (induction es arbitrary: i l tbl)
  case Nil
  then show ?case by simp
next
  case (Cons a es)
  show ?case
  proof (cases "resolveRange T S (parseEntry l a)")
    case (Inl e')
    then have "e' = e" using Cons.prems by simp
    with Inl have "resolveRange T S (resolveEntries l (a # es) ! 0) = Inl e" by simp
    then show ?thesis by (intro exI [of _ 0]) simp
  next
    case (Inr r)
    define tbl1 where "tbl1 = (case r of None \<Rightarrow> tbl | Some sr \<Rightarrow> tbl(i \<mapsto> sr))"
    have "eachEntry T S es (i + 1) (parseEntry l a) tbl1 = Inl e"
      using Cons.prems Inr by (simp add: tbl1_def split: option.splits)
    from Cons.IH [OF this] obtain j where j: "j < length es"
      "resolveRange T S (resolveEntries (parseEntry l a) es ! j) = Inl e"
      "\<forall>k<j. \<exists>r. resolveRange T S (resolveEntries (parseEntry l a) es ! k) = Inr r"
      by blast
    have "\<forall>k<Suc j. \<exists>r. resolveRange T S (resolveEntries l (a # es) ! k) = Inr r"
    proof (intro allI impI)
      fix k assume "k < Suc j"
      then show "\<exists>r. resolveRange T S (resolveEntries l (a # es) ! k) = Inr r"
        using Inr j(3) by (cases k) auto
    qed
    with j(1,2) show ?thesis by (intro exI [of _ "Suc j"]) simp
  qed
qed

lemma eachEntry_first_failure:
  assumes "j < length es" and "resolveRange T S (resolveEntries l es ! j) = Inl e0"
    and "\<forall>n\<ge>i. tbl n = None"
  shows "\<exists>k\<le>j. \<exists>e. resolveRange T S (resolveEntries l es ! k) = Inl e \<and>
           eachEntry T S es i l tbl = Inl e"
proof (cases "eachEntry T S es i l tbl")
  case (Inl e)
  from eachEntry_Inl [OF this] obtain k where k: "k < length es"
    "resolveRange T S (resolveEntries l es ! k) = Inl e"
    "\<forall>n<k. \<exists>r. resolveRange T S (resolveEntries l es ! n) = Inr r"
    by blast
  have "k \<le> j"
  proof (rule ccontr)
    assume "\<not> k \<le> j"
    then have "j < k" by simp
    with k(3) assms(2) show False by auto
  qed
  with k(2) Inl show ?thesis by blast
next
  case (Inr st)
  then have "eachEntry T S es i l tbl = Inr (fst st, snd st)" by simp
  from eachEntry_Inr [OF this assms(3) assms(1)] assms(2) show ?thesis by simp
qed

lemma eachEntry_cong:
  "list_all2 (\<lambda>e1 e2. \<forall>l. parseEntry l e1 = parseEntry l e2) es1 es2 \<Longrightarrow>
   eachEntry T S es1 i l tbl = eachEntry T S es2 i l tbl"
proof (induction es1 es2 arbitrary: i l tbl rule: list_all2_induct)
  case Nil
  then show ?case by simp
next
  case (Cons e1 es1 e2 es2)
  have pe: "parseEntry l e1 = parseEntry l e2" using Cons.hyps(1) by simp
  show ?case unfolding eachEntry.simps pe by (simp only: Cons.IH)
qed

lemma eachEntry_last:
  "eachEntry T S es i l tbl = Inr (l', tbl') \<Longrightarrow> l' = last (l # resolveEntries l es)"
proof (induction es arbitrary: i l tbl)
  case Nil
  then show ?case by simp
next
  case (Cons a es)
  obtain r where r: "resolveRange T S (parseEntry l a) = Inr r"
    using Cons.prems by (cases "resolveRange T S (parseEntry l a)") auto
  define tbl1 where "tbl1 = (case r of None \<Rightarrow> tbl | Some sr \<Rightarrow> tbl(i \<mapsto> sr))"
  have "eachEntry T S es (i + 1) (parseEntry l a) tbl1 = Inr (l', tbl')"
    using Cons.prems r by (simp add: tbl1_def split: option.splits)
  from Cons.IH [OF this] show ?case by simp
qed

lemma resolveEntries_take: "resolveEntries l (take n es) = take n (resolveEntries l es)"
proof (induction es arbitrary: l n)
  case Nil
  then show ?case by simp
next
  case (Cons a es)
  then show ?case by (cases n) simp_all
qed

lemma eachEntry_prefix:
  assumes "eachEntry T S (take (Suc j) es) i l tbl = Inr (l', tbl')" and "j < length es"
  shows "l' = resolveEntries l es ! j"
proof -
  have len: "length (resolveEntries l es) = length es" by (rule length_resolveEntries)
  from eachEntry_last [OF assms(1)]
  have "l' = last (l # take (Suc j) (resolveEntries l es))" by (simp add: resolveEntries_take)
  also have "\<dots> = last (take (Suc j) (resolveEntries l es))"
    using assms(2) len by (cases "resolveEntries l es") auto
  also have "\<dots> = resolveEntries l es ! j"
    using assms(2) len by (simp add: take_Suc_conv_app_nth)
  finally show ?thesis .
qed

section \<open>The tables of one call\<close>

lemma tableOf_tableOfText: "tableOf sourceCode = Inr (tableOfText sourceCode)"
  by (simp add: tableOf_def tableOfText_def getLocationByOffset_offsetTable split: option.splits)

lemma tableOfText_None: "tableOfText None = Map.empty"
  by (simp add: tableOfText_def)

lemma mapSourceCodes_spec:
  "mapSourceCodes sourceCodes keys acc =
     Inr (\<lambda>k. if k \<in> set keys then Some (tableOfText (valueAt sourceCodes k)) else acc k)"
proof (induction keys arbitrary: acc)
  case Nil
  then show ?case by simp
next
  case (Cons key keys)
  show ?case
    by (simp add: tableOf_tableOfText Cons.IH valueAt_def) (rule ext, simp add: valueAt_def)
qed

lemma mapSourceCodes_tablesFor:
  "mapSourceCodes sourceCodes (mapKeys sourceCodes) Map.empty = Inr (tablesFor sourceCodes)"
  by (simp add: tablesFor_def mapSourceCodes_spec)

lemma tablesFor_apply:
  "tablesFor sourceCodes k =
     (if mapVisits sourceCodes k then Some (tableOfText (valueAt sourceCodes k)) else None)"
  by (simp add: tablesFor_def mapSourceCodes_spec mapVisits_def)

lemma decodeEntries_eachEntry:
  "decodeEntries tables sources srcMap = Inr tbl \<longleftrightarrow>
     (\<exists>l. eachEntry tables sources (split_str (of_char CHR '';'') srcMap) 0 emptyEntry Map.empty
            = Inr (l, tbl))"
  by (auto simp: decodeEntries_def split: sum.splits)

lemma decodeEntries_eachEntry_Inl:
  "decodeEntries tables sources srcMap = Inl e \<longleftrightarrow>
     eachEntry tables sources (split_str (of_char CHR '';'') srcMap) 0 emptyEntry Map.empty = Inl e"
  by (auto simp: decodeEntries_def split: sum.splits)

lemma parseSourceMap_decodeEntries:
  "parseSourceMap sourceCodes srcMap pcToInstructionIndex sources =
     (case decodeEntries (tablesFor sourceCodes) sources srcMap of
        Inl e \<Rightarrow> Inl e
      | Inr instructionIndexToSourceRange \<Rightarrow>
          Inr (rekey pcToInstructionIndex instructionIndexToSourceRange))"
  by (simp add: parseSourceMap_def mapSourceCodes_tablesFor decodeEntries_def
        split: sum.splits prod.splits)

lemma fold_upd_apply:
  "fold (\<lambda>k m. m(k \<mapsto> f k)) ks init k = (if k \<in> set ks then Some (f k) else init k)"
  by (induction ks arbitrary: init) auto

lemma rekey_apply:
  "rekey pcToInstructionIndex tbl pc =
     (case map_of pcToInstructionIndex pc of None \<Rightarrow> None | Some i \<Rightarrow> Some (tbl i))"
proof (cases "map_of pcToInstructionIndex pc")
  case None
  then have "pc \<notin> set (map fst pcToInstructionIndex)" by (simp add: map_of_eq_None_iff)
  with None show ?thesis by (simp add: rekey_def fold_upd_apply)
next
  case (Some i)
  then have "pc \<in> set (map fst pcToInstructionIndex)"
    by (metis map_of_eq_None_iff option.distinct(1) set_map)
  with Some show ?thesis by (simp add: rekey_def fold_upd_apply)
qed

lemma dom_rekey: "dom (rekey pcToInstructionIndex tbl) = fst ` set pcToInstructionIndex"
  by (auto simp: dom_def rekey_apply map_of_eq_None_iff split: option.splits)

lemma decodeEntries_Inr:
  assumes "decodeEntries tables sources srcMap = Inr tbl"
    and "k < length (resolvedEntries srcMap)"
  shows "resolveRange tables sources (resolvedEntries srcMap ! k) = Inr (tbl k)"
proof -
  from assms(1) obtain l where
    "eachEntry tables sources (split_str (of_char CHR '';'') srcMap) 0 emptyEntry Map.empty
       = Inr (l, tbl)"
    by (auto simp: decodeEntries_eachEntry)
  from eachEntry_Inr [OF this, of k] assms(2) show ?thesis
    by (simp add: resolvedEntries_def length_resolveEntries)
qed

lemma decode_first_failure:
  assumes "j < length (resolvedEntries srcMap)"
    and "outOfRange (tablesFor sourceCodes) (resolvedEntries srcMap ! j)"
  shows "\<exists>k\<le>j. outOfRange (tablesFor sourceCodes) (resolvedEntries srcMap ! k) \<and>
           parseSourceMap sourceCodes srcMap pcToInstructionIndex sources =
             Inl (Error (outOfRangeMessage
                    (getProp (map_of sources) (fileIndex (resolvedEntries srcMap ! k)))))"
proof -
  let ?es = "split_str (of_char CHR '';'') srcMap"
  let ?T = "tablesFor sourceCodes"
  have j: "j < length ?es" using assms(1) by (simp add: resolvedEntries_def length_resolveEntries)
  have "resolveRange ?T sources (resolveEntries emptyEntry ?es ! j) =
          Inl (Error (outOfRangeMessage (getProp (map_of sources)
                 (fileIndex (resolveEntries emptyEntry ?es ! j)))))"
    using assms(2) unfolding resolvedEntries_def by (rule resolveRange_outOfRange)
  from eachEntry_first_failure [OF j this, of 0 Map.empty]
  obtain k e where k: "k \<le> j"
    "resolveRange ?T sources (resolveEntries emptyEntry ?es ! k) = Inl e"
    "eachEntry ?T sources ?es 0 emptyEntry Map.empty = Inl e"
    by auto
  from resolveRange_Inl [OF k(2)] k(1,3) show ?thesis
    by (auto simp: parseSourceMap_decodeEntries decodeEntries_def resolvedEntries_def
          split: sum.splits)
qed

lemma decodeEntries_Inl:
  assumes "decodeEntries tables sources srcMap = Inl e"
  shows "\<exists>k<length (resolvedEntries srcMap).
           resolveRange tables sources (resolvedEntries srcMap ! k) = Inl e"
  using eachEntry_Inl [OF assms [unfolded decodeEntries_eachEntry_Inl]]
  unfolding resolvedEntries_def length_resolveEntries by blast

section \<open>Properties of \<open>parseSourceMap\<close>\<close>

text \<open>
  C6: the entry string "10:5:0:-;;20:3:1:-" has three entries, and the loop resolves
  them, in this order, to \<open>{10, 5, 0}\<close>, \<open>{10, 5, 0}\<close> (the empty entry inherits
  every field) and \<open>{20, 3, 1}\<close>: these are the values of \<open>lastParsedEntry\<close>
  after one, two and three rounds of the loop (run here without any source text, so
  that no round throws), and the ranges that \<open>parseSourceMap\<close> returns for the
  three instructions, with two texts of 25 characters on one line, are the columns 10
  to 15 of file 0, the same again, and the columns 20 to 23 of file 1.
\<close>

theorem delta_resolution_example:
  "entriesOf (js ''10:5:0:-;;20:3:1:-'') = [js ''10:5:0:-'', [], js ''20:3:1:-''] \<and>
   resolvedEntries (js ''10:5:0:-;;20:3:1:-'') =
     [\<lparr>offset = Num 10, length_f = Num 5, fileIndex = Num 0\<rparr>,
      \<lparr>offset = Num 10, length_f = Num 5, fileIndex = Num 0\<rparr>,
      \<lparr>offset = Num 20, length_f = Num 3, fileIndex = Num 1\<rparr>] \<and>
   (\<exists>tbl. eachEntry (tablesFor (PlainObject [])) []
             (take 1 (entriesOf (js ''10:5:0:-;;20:3:1:-''))) 0 emptyEntry Map.empty =
           Inr (\<lparr>offset = Num 10, length_f = Num 5, fileIndex = Num 0\<rparr>, tbl)) \<and>
   (\<exists>tbl. eachEntry (tablesFor (PlainObject [])) []
             (take 2 (entriesOf (js ''10:5:0:-;;20:3:1:-''))) 0 emptyEntry Map.empty =
           Inr (\<lparr>offset = Num 10, length_f = Num 5, fileIndex = Num 0\<rparr>, tbl)) \<and>
   (\<exists>tbl. eachEntry (tablesFor (PlainObject [])) []
             (take 3 (entriesOf (js ''10:5:0:-;;20:3:1:-''))) 0 emptyEntry Map.empty =
           Inr (\<lparr>offset = Num 20, length_f = Num 3, fileIndex = Num 1\<rparr>, tbl)) \<and>
   (\<exists>pcsToSourceRange.
      parseSourceMap
        (PlainObject [(0, Some (js ''0123456789012345678901234'')),
                      (1, Some (js ''0123456789012345678901234''))])
        (js ''10:5:0:-;;20:3:1:-'') [(0, 0), (1, 1), (2, 2)]
        [(0, js ''A.sol''), (1, js ''B.sol'')] = Inr pcsToSourceRange \<and>
      pcsToSourceRange 0 =
        Some (Some \<lparr>location = \<lparr>start = \<lparr>line = 1, column = 10\<rparr>,
                                  end_f = \<lparr>line = 1, column = 15\<rparr>\<rparr>,
                     fileName = Some (js ''A.sol'')\<rparr>) \<and>
      pcsToSourceRange 1 =
        Some (Some \<lparr>location = \<lparr>start = \<lparr>line = 1, column = 10\<rparr>,
                                  end_f = \<lparr>line = 1, column = 15\<rparr>\<rparr>,
                     fileName = Some (js ''A.sol'')\<rparr>) \<and>
      pcsToSourceRange 2 =
        Some (Some \<lparr>location = \<lparr>start = \<lparr>line = 1, column = 20\<rparr>,
                                  end_f = \<lparr>line = 1, column = 23\<rparr>\<rparr>,
                     fileName = Some (js ''B.sol'')\<rparr>))"
proof -
  let ?m = "js ''10:5:0:-;;20:3:1:-''"
  let ?e1 = "\<lparr>offset = Num 10, length_f = Num 5, fileIndex = Num 0\<rparr>"
  let ?e3 = "\<lparr>offset = Num 20, length_f = Num 3, fileIndex = Num 1\<rparr>"
  let ?run = "\<lambda>n. eachEntry (tablesFor (PlainObject [])) [] (take n (entriesOf ?m)) 0
                  emptyEntry Map.empty"
  let ?r = "parseSourceMap
        (PlainObject [(0, Some (js ''0123456789012345678901234'')),
                      (1, Some (js ''0123456789012345678901234''))])
        ?m [(0, 0), (1, 1), (2, 2)] [(0, js ''A.sol''), (1, js ''B.sol'')]"
  have entries: "entriesOf ?m = [js ''10:5:0:-'', [], js ''20:3:1:-'']" by code_simp
  have resolved: "resolvedEntries ?m = [?e1, ?e1, ?e3]" by code_simp
  have "case ?run 1 of Inl e \<Rightarrow> False | Inr (l, t) \<Rightarrow> l = ?e1" by code_simp
  then have r1: "\<exists>tbl. ?run 1 = Inr (?e1, tbl)" by (auto split: sum.splits)
  have "case ?run 2 of Inl e \<Rightarrow> False | Inr (l, t) \<Rightarrow> l = ?e1" by code_simp
  then have r2: "\<exists>tbl. ?run 2 = Inr (?e1, tbl)" by (auto split: sum.splits)
  have "case ?run 3 of Inl e \<Rightarrow> False | Inr (l, t) \<Rightarrow> l = ?e3" by code_simp
  then have r3: "\<exists>tbl. ?run 3 = Inr (?e3, tbl)" by (auto split: sum.splits)
  have "case ?r of
      Inl e \<Rightarrow> False
    | Inr t \<Rightarrow>
        t 0 = Some (Some \<lparr>location = \<lparr>start = \<lparr>line = 1, column = 10\<rparr>,
                                       end_f = \<lparr>line = 1, column = 15\<rparr>\<rparr>,
                          fileName = Some (js ''A.sol'')\<rparr>) \<and>
        t 1 = Some (Some \<lparr>location = \<lparr>start = \<lparr>line = 1, column = 10\<rparr>,
                                       end_f = \<lparr>line = 1, column = 15\<rparr>\<rparr>,
                          fileName = Some (js ''A.sol'')\<rparr>) \<and>
        t 2 = Some (Some \<lparr>location = \<lparr>start = \<lparr>line = 1, column = 20\<rparr>,
                                       end_f = \<lparr>line = 1, column = 23\<rparr>\<rparr>,
                          fileName = Some (js ''B.sol'')\<rparr>)"
    by code_simp
  then have e2e: "\<exists>t. ?r = Inr t \<and>
        t 0 = Some (Some \<lparr>location = \<lparr>start = \<lparr>line = 1, column = 10\<rparr>,
                                       end_f = \<lparr>line = 1, column = 15\<rparr>\<rparr>,
                          fileName = Some (js ''A.sol'')\<rparr>) \<and>
        t 1 = Some (Some \<lparr>location = \<lparr>start = \<lparr>line = 1, column = 10\<rparr>,
                                       end_f = \<lparr>line = 1, column = 15\<rparr>\<rparr>,
                          fileName = Some (js ''A.sol'')\<rparr>) \<and>
        t 2 = Some (Some \<lparr>location = \<lparr>start = \<lparr>line = 1, column = 20\<rparr>,
                                       end_f = \<lparr>line = 1, column = 23\<rparr>\<rparr>,
                          fileName = Some (js ''B.sol'')\<rparr>)"
    by (cases ?r) auto
  from entries resolved r1 r2 r3 e2e show ?thesis by (intro conjI)
qed

text \<open>
  C1: if some resolved entry has a file index (other than \<open>-1\<close>) with an offset table,
  and its \<open>offset\<close> or \<open>offset + length\<close> is not a key of that table, then
  \<open>parseSourceMap\<close> returns no table at all: it throws the error of the first such
  entry, and the message of the error ends with the name that \<open>sources\<close> gives the
  file of that entry.
\<close>

theorem out_of_range_is_fatal:
  assumes "j < length (resolvedEntries srcMap)"
    and "outOfRange (tablesFor sourceCodes) (resolvedEntries srcMap ! j)"
  shows "\<exists>k\<le>j. outOfRange (tablesFor sourceCodes) (resolvedEntries srcMap ! k) \<and>
           parseSourceMap sourceCodes srcMap pcToInstructionIndex sources =
             Inl (Error (js ''Error while processing sourcemap: location out of range in ''
                    @ (case getProp (map_of sources) (fileIndex (resolvedEntries srcMap ! k)) of
                         None \<Rightarrow> js ''undefined'' | Some name \<Rightarrow> name)))"
  using decode_first_failure [OF assms] unfolding outOfRangeMessage_def .

text \<open>
  The theorem at the text "abc" for file 0, named "C.sol", and the source map "0:10:0":
  offset 10 is past the end of the text.
\<close>

theorem out_of_range_is_fatal_witness:
  "0 < length (resolvedEntries (js ''0:10:0'')) \<and>
   outOfRange (tablesFor (PlainObject [(0, Some (js ''abc''))])) (resolvedEntries (js ''0:10:0'') ! 0) \<and>
   parseSourceMap (PlainObject [(0, Some (js ''abc''))]) (js ''0:10:0'') [(0, 0)] [(0, js ''C.sol'')] =
     Inl (Error (js ''Error while processing sourcemap: location out of range in C.sol''))"
proof -
  have h1: "0 < length (resolvedEntries (js ''0:10:0''))" by code_simp
  have h2: "outOfRange (tablesFor (PlainObject [(0, Some (js ''abc''))])) (resolvedEntries (js ''0:10:0'') ! 0)"
    by code_simp
  have name: "getProp (map_of [(0, js ''C.sol'')]) (fileIndex (resolvedEntries (js ''0:10:0'') ! 0))
        = Some (js ''C.sol'')"
    by code_simp
  from out_of_range_is_fatal [OF h1 h2, of "[(0, 0)]" "[(0, js ''C.sol'')]"]
  obtain k where "k \<le> 0" and r:
    "parseSourceMap (PlainObject [(0, Some (js ''abc''))]) (js ''0:10:0'') [(0, 0)] [(0, js ''C.sol'')] =
       Inl (Error (js ''Error while processing sourcemap: location out of range in ''
              @ (case getProp (map_of [(0, js ''C.sol'')])
                        (fileIndex (resolvedEntries (js ''0:10:0'') ! k)) of
                   None \<Rightarrow> js ''undefined'' | Some name \<Rightarrow> name)))"
    by blast
  then have k0: "k = 0" by simp
  from r have "parseSourceMap (PlainObject [(0, Some (js ''abc''))]) (js ''0:10:0'') [(0, 0)] [(0, js ''C.sol'')] =
     Inl (Error (js ''Error while processing sourcemap: location out of range in ''
                   @ js ''C.sol''))"
    unfolding k0 name by (simp only: option.case)
  then have "parseSourceMap (PlainObject [(0, Some (js ''abc''))]) (js ''0:10:0'') [(0, 0)] [(0, js ''C.sol'')] =
     Inl (Error (js ''Error while processing sourcemap: location out of range in C.sol''))"
    by (simp add: js_def)
  with h1 h2 show ?thesis by blast
qed

text \<open>
  C2: if the resolved entry at position \<open>j\<close> has the file index \<open>-1\<close>, or a file
  index with no offset table, then this entry raises no error and is left unmapped; when
  the loop over the entries ends without an error, \<open>j\<close> is not a key of
  \<open>instructionIndexToSourceRange\<close> and every position of the table holds what its
  own entry resolves to; and when the loop throws, the error is the one of another
  entry. \<open>parseSourceMap\<close> returns that error, or that table under the keys of
  \<open>pcToInstructionIndex\<close>.
\<close>

theorem unmapped_entry_is_skipped:
  assumes "j < length (resolvedEntries srcMap)"
    and "unmapped (tablesFor sourceCodes) (resolvedEntries srcMap ! j)"
  shows "resolveRange (tablesFor sourceCodes) sources (resolvedEntries srcMap ! j) = Inr None \<and>
         (case decodeEntries (tablesFor sourceCodes) sources srcMap of
            Inr instructionIndexToSourceRange \<Rightarrow>
              instructionIndexToSourceRange j = None \<and>
              (\<forall>k<length (resolvedEntries srcMap).
                 resolveRange (tablesFor sourceCodes) sources (resolvedEntries srcMap ! k) =
                   Inr (instructionIndexToSourceRange k)) \<and>
              parseSourceMap sourceCodes srcMap pcToInstructionIndex sources =
                Inr (rekey pcToInstructionIndex instructionIndexToSourceRange)
          | Inl e \<Rightarrow>
              (\<exists>k<length (resolvedEntries srcMap). k \<noteq> j \<and>
                 resolveRange (tablesFor sourceCodes) sources (resolvedEntries srcMap ! k) = Inl e) \<and>
              parseSourceMap sourceCodes srcMap pcToInstructionIndex sources = Inl e)"
proof -
  let ?T = "tablesFor sourceCodes"
  have none: "resolveRange ?T sources (resolvedEntries srcMap ! j) = Inr None"
    using assms(2) by (rule resolveRange_unmapped)
  show ?thesis
  proof (cases "decodeEntries ?T sources srcMap")
    case (Inl e)
    from decodeEntries_Inl [OF Inl]
    obtain k where k: "k < length (resolvedEntries srcMap)"
      "resolveRange ?T sources (resolvedEntries srcMap ! k) = Inl e"
      by blast
    with none have "k \<noteq> j" by auto
    with k none Inl show ?thesis by (auto simp: parseSourceMap_decodeEntries)
  next
    case (Inr tbl)
    have all: "resolveRange ?T sources (resolvedEntries srcMap ! k) = Inr (tbl k)"
      if "k < length (resolvedEntries srcMap)" for k
      using decodeEntries_Inr [OF Inr that] .
    from all [of j] assms(1) none have "tbl j = None" by simp
    with all none Inr show ?thesis by (simp add: parseSourceMap_decodeEntries)
  qed
qed

text \<open>
  The theorem at the source map "0:1:-1;0:1:0" with the text "abc" for file 0: the first
  entry is unmapped, the second one is resolved, and the program counter of the first
  instruction is a key of the result with the value \<open>undefined\<close>.
\<close>

theorem unmapped_entry_is_skipped_witness:
  "0 < length (resolvedEntries (js ''0:1:-1;0:1:0'')) \<and>
   unmapped (tablesFor (PlainObject [(0, Some (js ''abc''))])) (resolvedEntries (js ''0:1:-1;0:1:0'') ! 0) \<and>
   (\<exists>pcsToSourceRange.
      parseSourceMap (PlainObject [(0, Some (js ''abc''))]) (js ''0:1:-1;0:1:0'') [(0, 0), (2, 1)]
        [(0, js ''C.sol'')] = Inr pcsToSourceRange \<and>
      pcsToSourceRange 0 = Some None \<and>
      pcsToSourceRange 2 \<noteq> Some None \<and> pcsToSourceRange 2 \<noteq> None)"
proof -
  let ?sc = "(PlainObject [(0, Some (js ''abc''))])" and ?m = "js ''0:1:-1;0:1:0''"
  let ?pcs = "[(0, 0), (2, 1)] :: (nat \<times> nat) list" and ?src = "[(0, js ''C.sol'')]"
  have h1: "0 < length (resolvedEntries ?m)" by code_simp
  have h2: "unmapped (tablesFor ?sc) (resolvedEntries ?m ! 0)" by code_simp
  have ok: "\<not> isl (decodeEntries (tablesFor ?sc) ?src ?m)" by code_simp
  then obtain tbl where tbl: "decodeEntries (tablesFor ?sc) ?src ?m = Inr tbl"
    by (cases "decodeEntries (tablesFor ?sc) ?src ?m") auto
  have second: "case decodeEntries (tablesFor ?sc) ?src ?m of
      Inr t \<Rightarrow> t 1 \<noteq> None | Inl e \<Rightarrow> False"
    by code_simp
  from unmapped_entry_is_skipped [OF h1 h2, of ?src ?pcs] tbl
  have "tbl 0 = None" "parseSourceMap ?sc ?m ?pcs ?src = Inr (rekey ?pcs tbl)"
    by simp_all
  moreover from second tbl have "tbl 1 \<noteq> None" by simp
  ultimately have "parseSourceMap ?sc ?m ?pcs ?src = Inr (rekey ?pcs tbl) \<and>
      rekey ?pcs tbl 0 = Some None \<and>
      rekey ?pcs tbl 2 \<noteq> Some None \<and> rekey ?pcs tbl 2 \<noteq> None"
    by (simp add: rekey_apply)
  with h1 h2 show ?thesis by blast
qed

text \<open>
  C3: when \<open>parseSourceMap\<close> returns, the keys of its result are exactly the program
  counters that are keys of \<open>pcToInstructionIndex\<close>, the mapping of the external
  collaborator: each of them is a key (its value is a source range or \<open>undefined\<close>),
  and there is no other key.
\<close>

theorem pc_keys_preserved:
  "parseSourceMap sourceCodes srcMap pcToInstructionIndex sources = Inr pcsToSourceRange \<Longrightarrow>
   dom pcsToSourceRange = fst ` set pcToInstructionIndex"
proof -
  assume ok: "parseSourceMap sourceCodes srcMap pcToInstructionIndex sources = Inr pcsToSourceRange"
  then obtain tbl where "pcsToSourceRange = rekey pcToInstructionIndex tbl"
    by (auto simp: parseSourceMap_decodeEntries split: sum.splits)
  then show ?thesis by (simp add: dom_rekey)
qed

text \<open>
  The theorem at the end-to-end example of the specification: the source
  "contract C { function f() public {} }" for file 0, named "C.sol", the map "0:10:0:-"
  and one instruction at program counter 0.
\<close>

theorem pc_keys_preserved_witness:
  "\<exists>pcsToSourceRange.
     parseSourceMap (PlainObject [(0, Some (js ''contract C { function f() public {} }''))])
       (js ''0:10:0:-'') [(0, 0)] [(0, js ''C.sol'')] = Inr pcsToSourceRange \<and>
     dom pcsToSourceRange = {0} \<and>
     pcsToSourceRange 0 =
       Some (Some \<lparr>location = \<lparr>start = \<lparr>line = 1, column = 0\<rparr>,
                                 end_f = \<lparr>line = 1, column = 10\<rparr>\<rparr>,
                    fileName = Some (js ''C.sol'')\<rparr>)"
proof -
  let ?r = "parseSourceMap (PlainObject [(0, Some (js ''contract C { function f() public {} }''))])
       (js ''0:10:0:-'') [(0, 0)] [(0, js ''C.sol'')]"
  have run: "case ?r of
      Inr t \<Rightarrow> t 0 = Some (Some \<lparr>location = \<lparr>start = \<lparr>line = 1, column = 0\<rparr>,
                                 end_f = \<lparr>line = 1, column = 10\<rparr>\<rparr>,
                    fileName = Some (js ''C.sol'')\<rparr>)
    | Inl e \<Rightarrow> False"
    by code_simp
  then obtain t where t: "?r = Inr t" by (cases ?r) auto
  from pc_keys_preserved [OF t] have "dom t = {0}" by simp
  with run t show ?thesis by simp
qed

text \<open>
  C5, as the claim states it, fails: in the source map "::0" the first entry leaves its
  start offset and its length empty, file 0 has the text "abc", and the call throws the
  out-of-range error for "C.sol".
\<close>

theorem unset_field_counterexample:
  "fieldOf (entriesOf (js ''::0'') ! 0) 0 = Some [] \<and>
   fieldOf (entriesOf (js ''::0'') ! 0) 1 = Some [] \<and>
   parseSourceMap (PlainObject [(0, Some (js ''abc''))]) (js ''::0'') [(0, 0)] [(0, js ''C.sol'')] =
     Inl (Error (js ''Error while processing sourcemap: location out of range in C.sol''))"
proof -
  have fields: "fieldOf (entriesOf (js ''::0'') ! 0) 0 = Some []"
    "fieldOf (entriesOf (js ''::0'') ! 0) 1 = Some []"
    by code_simp+
  have "case parseSourceMap (PlainObject [(0, Some (js ''abc''))]) (js ''::0'') [(0, 0)] [(0, js ''C.sol'')] of
          Inl e \<Rightarrow> e = Error (js ''Error while processing sourcemap: location out of range in C.sol'')
        | Inr pcsToSourceRange \<Rightarrow> False"
    by code_simp
  then have "parseSourceMap (PlainObject [(0, Some (js ''abc''))]) (js ''::0'') [(0, 0)] [(0, js ''C.sol'')] =
     Inl (Error (js ''Error while processing sourcemap: location out of range in C.sol''))"
    by (simp split: sum.splits)
  with fields show ?thesis by simp
qed

lemma offset_unset_propagates:
  "offset l = Undefined \<Longrightarrow> j < length es \<Longrightarrow>
   list_all (\<lambda>e. noLeadingInt (fieldOf e 0)) (take (Suc j) es) \<Longrightarrow>
   offset (resolveEntries l es ! j) = Undefined"
proof (induction es arbitrary: l j)
  case Nil
  then show ?case by simp
next
  case (Cons e es)
  from Cons.prems(3) have e: "noLeadingInt (nth_opt (split_str (of_char CHR '':'') e) 0)"
    by (simp add: fieldOf_def)
  have first: "offset (parseEntry l e) = Undefined"
    using e Cons.prems(1) by (simp add: offset_parseEntry parseInt_noLeadingInt)
  show ?case
  proof (cases j)
    case 0
    with first show ?thesis by simp
  next
    case (Suc j')
    with Cons.prems have "j' < length es" "list_all (\<lambda>e. noLeadingInt (fieldOf e 0)) (take (Suc j') es)"
      by simp_all
    from Cons.IH [OF first this] Suc show ?thesis by simp
  qed
qed

lemma length_unset_propagates:
  "length_f l = Undefined \<Longrightarrow> j < length es \<Longrightarrow>
   list_all (\<lambda>e. noLeadingInt (fieldOf e 1)) (take (Suc j) es) \<Longrightarrow>
   length_f (resolveEntries l es ! j) = Undefined"
proof (induction es arbitrary: l j)
  case Nil
  then show ?case by simp
next
  case (Cons e es)
  from Cons.prems(3) have e: "noLeadingInt (nth_opt (split_str (of_char CHR '':'') e) 1)"
    by (simp add: fieldOf_def)
  have first: "length_f (parseEntry l e) = Undefined"
    using e Cons.prems(1) by (simp add: length_parseEntry parseInt_noLeadingInt)
  show ?case
  proof (cases j)
    case 0
    with first show ?thesis by simp
  next
    case (Suc j')
    with Cons.prems have "j' < length es" "list_all (\<lambda>e. noLeadingInt (fieldOf e 1)) (take (Suc j') es)"
      by simp_all
    from Cons.IH [OF first this] Suc show ?thesis by simp
  qed
qed

lemma fileIndex_unset_propagates:
  "fileIndex l = Undefined \<Longrightarrow> j < length es \<Longrightarrow>
   list_all (\<lambda>e. noLeadingInt (fieldOf e 2)) (take (Suc j) es) \<Longrightarrow>
   fileIndex (resolveEntries l es ! j) = Undefined"
proof (induction es arbitrary: l j)
  case Nil
  then show ?case by simp
next
  case (Cons e es)
  from Cons.prems(3) have e: "noLeadingInt (nth_opt (split_str (of_char CHR '':'') e) 2)"
    by (simp add: fieldOf_def)
  have first: "fileIndex (parseEntry l e) = Undefined"
    using e Cons.prems(1) by (simp add: fileIndex_parseEntry parseInt_noLeadingInt)
  show ?case
  proof (cases j)
    case 0
    with first show ?thesis by simp
  next
    case (Suc j')
    with Cons.prems have "j' < length es" "list_all (\<lambda>e. noLeadingInt (fieldOf e 2)) (take (Suc j') es)"
      by simp_all
    from Cons.IH [OF first this] Suc show ?thesis by simp
  qed
qed

text \<open>
  C5, amended: a numeric field that the first entry and every entry up to position
  \<open>j\<close> leave absent is unset (\<open>undefined\<close>) in the resolved entry at \<open>j\<close>,
  which is \<open>lastParsedEntry\<close> after round \<open>j\<close> of the loop: the unset state of
  the first entry goes forward until an entry gives the field a value. An entry whose
  file index is unset raises no error and gets no instruction-index mapping. An entry
  whose offset or length is unset, while its file index is not \<open>-1\<close> and has an
  offset table, is out of range: the call fails with the out-of-range error of the
  first out-of-range entry, which is this entry when it is the first entry.
\<close>

theorem unset_fields_propagate:
  assumes "j < length (entriesOf srcMap)"
  shows "(list_all (\<lambda>e. noLeadingInt (fieldOf e 0)) (take (Suc j) (entriesOf srcMap)) \<longrightarrow>
            offset (resolvedEntries srcMap ! j) = Undefined) \<and>
         (list_all (\<lambda>e. noLeadingInt (fieldOf e 1)) (take (Suc j) (entriesOf srcMap)) \<longrightarrow>
            length_f (resolvedEntries srcMap ! j) = Undefined) \<and>
         (list_all (\<lambda>e. noLeadingInt (fieldOf e 2)) (take (Suc j) (entriesOf srcMap)) \<longrightarrow>
            fileIndex (resolvedEntries srcMap ! j) = Undefined) \<and>
         (\<forall>lastParsedEntry tbl.
            eachEntry (tablesFor sourceCodes) sources (take (Suc j) (entriesOf srcMap)) 0
              emptyEntry Map.empty = Inr (lastParsedEntry, tbl) \<longrightarrow>
            lastParsedEntry = resolvedEntries srcMap ! j) \<and>
         (fileIndex (resolvedEntries srcMap ! j) = Undefined \<longrightarrow>
            resolveRange (tablesFor sourceCodes) sources (resolvedEntries srcMap ! j) = Inr None \<and>
            (\<forall>tbl. decodeEntries (tablesFor sourceCodes) sources srcMap = Inr tbl \<longrightarrow>
               tbl j = None)) \<and>
         (fileIndex (resolvedEntries srcMap ! j) \<noteq> Num (- 1) \<and>
          getProp (tablesFor sourceCodes) (fileIndex (resolvedEntries srcMap ! j)) \<noteq> None \<and>
          (offset (resolvedEntries srcMap ! j) = Undefined \<or>
           length_f (resolvedEntries srcMap ! j) = Undefined) \<longrightarrow>
            outOfRange (tablesFor sourceCodes) (resolvedEntries srcMap ! j) \<and>
            (\<exists>k\<le>j. outOfRange (tablesFor sourceCodes) (resolvedEntries srcMap ! k) \<and>
               parseSourceMap sourceCodes srcMap pcToInstructionIndex sources =
                 Inl (Error (outOfRangeMessage
                        (getProp (map_of sources) (fileIndex (resolvedEntries srcMap ! k)))))))"
proof (intro conjI impI allI)
  assume "list_all (\<lambda>e. noLeadingInt (fieldOf e 0)) (take (Suc j) (entriesOf srcMap))"
  then show "offset (resolvedEntries srcMap ! j) = Undefined"
    using assms unfolding resolvedEntries_def entriesOf_def
    by (intro offset_unset_propagates) (simp_all add: emptyEntry_def)
next
  assume "list_all (\<lambda>e. noLeadingInt (fieldOf e 1)) (take (Suc j) (entriesOf srcMap))"
  then show "length_f (resolvedEntries srcMap ! j) = Undefined"
    using assms unfolding resolvedEntries_def entriesOf_def
    by (intro length_unset_propagates) (simp_all add: emptyEntry_def)
next
  assume "list_all (\<lambda>e. noLeadingInt (fieldOf e 2)) (take (Suc j) (entriesOf srcMap))"
  then show "fileIndex (resolvedEntries srcMap ! j) = Undefined"
    using assms unfolding resolvedEntries_def entriesOf_def
    by (intro fileIndex_unset_propagates) (simp_all add: emptyEntry_def)
next
  fix lastParsedEntry tbl
  assume "eachEntry (tablesFor sourceCodes) sources (take (Suc j) (entriesOf srcMap)) 0
              emptyEntry Map.empty = Inr (lastParsedEntry, tbl)"
  from eachEntry_prefix [OF this assms]
  show "lastParsedEntry = resolvedEntries srcMap ! j"
    by (simp add: resolvedEntries_def entriesOf_def)
next
  assume u: "fileIndex (resolvedEntries srcMap ! j) = Undefined"
  then have "unmapped (tablesFor sourceCodes) (resolvedEntries srcMap ! j)"
    by (simp add: unmapped_def getProp_def)
  then show none: "resolveRange (tablesFor sourceCodes) sources (resolvedEntries srcMap ! j)
      = Inr None"
    by (rule resolveRange_unmapped)
  fix tbl assume "decodeEntries (tablesFor sourceCodes) sources srcMap = Inr tbl"
  from decodeEntries_Inr [OF this, of j] assms none show "tbl j = None"
    by (simp add: length_resolvedEntries)
next
  assume h: "fileIndex (resolvedEntries srcMap ! j) \<noteq> Num (- 1) \<and>
          getProp (tablesFor sourceCodes) (fileIndex (resolvedEntries srcMap ! j)) \<noteq> None \<and>
          (offset (resolvedEntries srcMap ! j) = Undefined \<or>
           length_f (resolvedEntries srcMap ! j) = Undefined)"
  then obtain locationByOffset where
    t: "getProp (tablesFor sourceCodes) (fileIndex (resolvedEntries srcMap ! j))
          = Some locationByOffset"
    by auto
  have "getProp locationByOffset (offset (resolvedEntries srcMap ! j)) = None \<or>
        getProp locationByOffset
          (jsAdd (offset (resolvedEntries srcMap ! j)) (length_f (resolvedEntries srcMap ! j)))
          = None"
  proof (cases "offset (resolvedEntries srcMap ! j) = Undefined")
    case True
    then show ?thesis by (simp add: getProp_def)
  next
    case False
    with h have "length_f (resolvedEntries srcMap ! j) = Undefined" by simp
    then have "jsAdd (offset (resolvedEntries srcMap ! j)) (length_f (resolvedEntries srcMap ! j))
        = NaN"
      by (cases "offset (resolvedEntries srcMap ! j)") simp_all
    then show ?thesis by (simp add: getProp_def)
  qed
  with h t show oor: "outOfRange (tablesFor sourceCodes) (resolvedEntries srcMap ! j)"
    by (simp add: outOfRange_def)
  from assms have "j < length (resolvedEntries srcMap)" by (simp add: length_resolvedEntries)
  from decode_first_failure [OF this oor]
  show "\<exists>k\<le>j. outOfRange (tablesFor sourceCodes) (resolvedEntries srcMap ! k) \<and>
               parseSourceMap sourceCodes srcMap pcToInstructionIndex sources =
                 Inl (Error (outOfRangeMessage
                        (getProp (map_of sources) (fileIndex (resolvedEntries srcMap ! k)))))" .
qed

text \<open>
  The theorem at the source map ":5;:7" (offset and file index absent in both entries),
  at "3" (length absent), and, with the text "abc" for file 0 named "C.sol", at "::0"
  (offset and length unset) and at "0::0" (length unset): the last two calls fail.
\<close>

theorem unset_fields_propagate_witness:
  "1 < length (entriesOf (js '':5;:7'')) \<and>
   list_all (\<lambda>e. noLeadingInt (fieldOf e 0)) (take (Suc 1) (entriesOf (js '':5;:7''))) \<and>
   list_all (\<lambda>e. noLeadingInt (fieldOf e 2)) (take (Suc 1) (entriesOf (js '':5;:7''))) \<and>
   offset (resolvedEntries (js '':5;:7'') ! 1) = Undefined \<and>
   fileIndex (resolvedEntries (js '':5;:7'') ! 1) = Undefined \<and>
   (\<exists>tbl. eachEntry (tablesFor (PlainObject [(0, Some (js ''abc''))])) [(0, js ''C.sol'')]
            (take (Suc 1) (entriesOf (js '':5;:7''))) 0 emptyEntry Map.empty
          = Inr (resolvedEntries (js '':5;:7'') ! 1, tbl)) \<and>
   (\<exists>tbl. decodeEntries (tablesFor (PlainObject [(0, Some (js ''abc''))])) [(0, js ''C.sol'')]
            (js '':5;:7'') = Inr tbl \<and> tbl 1 = None) \<and>
   0 < length (entriesOf (js ''3'')) \<and>
   list_all (\<lambda>e. noLeadingInt (fieldOf e 1)) (take (Suc 0) (entriesOf (js ''3''))) \<and>
   length_f (resolvedEntries (js ''3'') ! 0) = Undefined \<and>
   0 < length (entriesOf (js ''::0'')) \<and>
   offset (resolvedEntries (js ''::0'') ! 0) = Undefined \<and>
   fileIndex (resolvedEntries (js ''::0'') ! 0) = Num 0 \<and>
   parseSourceMap (PlainObject [(0, Some (js ''abc''))]) (js ''::0'') [(0, 0)] [(0, js ''C.sol'')] =
     Inl (Error (outOfRangeMessage (Some (js ''C.sol'')))) \<and>
   0 < length (entriesOf (js ''0::0'')) \<and>
   length_f (resolvedEntries (js ''0::0'') ! 0) = Undefined \<and>
   fileIndex (resolvedEntries (js ''0::0'') ! 0) = Num 0 \<and>
   parseSourceMap (PlainObject [(0, Some (js ''abc''))]) (js ''0::0'') [(0, 0)] [(0, js ''C.sol'')] =
     Inl (Error (outOfRangeMessage (Some (js ''C.sol''))))"
proof -
  let ?sc = "PlainObject [(0, Some (js ''abc''))]" and ?src = "[(0, js ''C.sol'')]"
  let ?pcs = "[(0, 0)] :: (nat \<times> nat) list"
  have a: "1 < length (entriesOf (js '':5;:7''))"
    "list_all (\<lambda>e. noLeadingInt (fieldOf e 0)) (take (Suc 1) (entriesOf (js '':5;:7'')))"
    "list_all (\<lambda>e. noLeadingInt (fieldOf e 2)) (take (Suc 1) (entriesOf (js '':5;:7'')))"
    by code_simp+
  note A = unset_fields_propagate [OF a(1), of ?sc ?src ?pcs]
  from A a(2,3) have a': "offset (resolvedEntries (js '':5;:7'') ! 1) = Undefined"
    "fileIndex (resolvedEntries (js '':5;:7'') ! 1) = Undefined"
    by blast+
  have "\<not> isl (eachEntry (tablesFor ?sc) ?src (take (Suc 1) (entriesOf (js '':5;:7''))) 0
            emptyEntry Map.empty)"
    by code_simp
  then obtain l tbl where run: "eachEntry (tablesFor ?sc) ?src
      (take (Suc 1) (entriesOf (js '':5;:7''))) 0 emptyEntry Map.empty = Inr (l, tbl)"
    by (cases "eachEntry (tablesFor ?sc) ?src (take (Suc 1) (entriesOf (js '':5;:7''))) 0
            emptyEntry Map.empty") auto
  with A have "l = resolvedEntries (js '':5;:7'') ! 1" by blast
  with run have a2: "\<exists>tbl. eachEntry (tablesFor ?sc) ?src
      (take (Suc 1) (entriesOf (js '':5;:7''))) 0 emptyEntry Map.empty
        = Inr (resolvedEntries (js '':5;:7'') ! 1, tbl)"
    by blast
  have "\<not> isl (decodeEntries (tablesFor ?sc) ?src (js '':5;:7''))" by code_simp
  then obtain t where t: "decodeEntries (tablesFor ?sc) ?src (js '':5;:7'') = Inr t"
    by (cases "decodeEntries (tablesFor ?sc) ?src (js '':5;:7'')") auto
  with A a'(2) have "t 1 = None" by blast
  with t have a3: "\<exists>tbl. decodeEntries (tablesFor ?sc) ?src (js '':5;:7'') = Inr tbl \<and>
      tbl 1 = None"
    by blast
  have b: "0 < length (entriesOf (js ''3''))"
    "list_all (\<lambda>e. noLeadingInt (fieldOf e 1)) (take (Suc 0) (entriesOf (js ''3'')))"
    by code_simp+
  from unset_fields_propagate [OF b(1), of ?sc ?src ?pcs] b(2)
  have b': "length_f (resolvedEntries (js ''3'') ! 0) = Undefined"
    by blast
  have c: "0 < length (entriesOf (js ''::0''))"
    "offset (resolvedEntries (js ''::0'') ! 0) = Undefined"
    "fileIndex (resolvedEntries (js ''::0'') ! 0) = Num 0"
    "getProp (tablesFor ?sc) (Num 0) \<noteq> None"
    "getProp (map_of ?src) (Num 0) = Some (js ''C.sol'')"
    by code_simp+
  have c1: "fileIndex (resolvedEntries (js ''::0'') ! 0) \<noteq> Num (- 1) \<and>
      getProp (tablesFor ?sc) (fileIndex (resolvedEntries (js ''::0'') ! 0)) \<noteq> None \<and>
      (offset (resolvedEntries (js ''::0'') ! 0) = Undefined \<or>
       length_f (resolvedEntries (js ''::0'') ! 0) = Undefined)"
    unfolding c(2,3) using c(4) by simp
  from unset_fields_propagate [OF c(1), of ?sc ?src ?pcs] c1
  obtain k where "k \<le> 0" and "parseSourceMap ?sc (js ''::0'') ?pcs ?src =
      Inl (Error (outOfRangeMessage
             (getProp (map_of ?src) (fileIndex (resolvedEntries (js ''::0'') ! k)))))"
    by blast
  then have c': "parseSourceMap ?sc (js ''::0'') ?pcs ?src =
      Inl (Error (outOfRangeMessage (Some (js ''C.sol''))))"
    unfolding c(3) by (simp only: le_zero_eq c(3) c(5))
  have d: "0 < length (entriesOf (js ''0::0''))"
    "length_f (resolvedEntries (js ''0::0'') ! 0) = Undefined"
    "fileIndex (resolvedEntries (js ''0::0'') ! 0) = Num 0"
    by code_simp+
  have d1: "fileIndex (resolvedEntries (js ''0::0'') ! 0) \<noteq> Num (- 1) \<and>
      getProp (tablesFor ?sc) (fileIndex (resolvedEntries (js ''0::0'') ! 0)) \<noteq> None \<and>
      (offset (resolvedEntries (js ''0::0'') ! 0) = Undefined \<or>
       length_f (resolvedEntries (js ''0::0'') ! 0) = Undefined)"
    unfolding d(2,3) using c(4) by simp
  from unset_fields_propagate [OF d(1), of ?sc ?src ?pcs] d1
  obtain k where "k \<le> 0" and "parseSourceMap ?sc (js ''0::0'') ?pcs ?src =
      Inl (Error (outOfRangeMessage
             (getProp (map_of ?src) (fileIndex (resolvedEntries (js ''0::0'') ! k)))))"
    by blast
  then have d': "parseSourceMap ?sc (js ''0::0'') ?pcs ?src =
      Inl (Error (outOfRangeMessage (Some (js ''C.sol''))))"
    by (simp only: le_zero_eq d(3) c(5))
  from a a' a2 a3 b b' c(1,2,3) c' d d' show ?thesis by blast
qed

text \<open>
  C9: two source maps that differ only in the fourth field, the jump type, of their
  entries give the same result, whatever the other arguments are.
\<close>

theorem jump_type_unused:
  "sameButJumpType srcMap1 srcMap2 \<Longrightarrow>
   parseSourceMap sourceCodes srcMap1 pcToInstructionIndex sources =
   parseSourceMap sourceCodes srcMap2 pcToInstructionIndex sources"
proof -
  assume "sameButJumpType srcMap1 srcMap2"
  then have "list_all2 (\<lambda>e1 e2. \<forall>l. parseEntry l e1 = parseEntry l e2)
     (split_str (of_char CHR '';'') srcMap1) (split_str (of_char CHR '';'') srcMap2)"
    unfolding sameButJumpType_def
    by (rule list_all2_mono) (blast intro: parseEntry_take3)
  then have "eachEntry T (sources :: (int \<times> jsstring) list) (split_str (of_char CHR '';'') srcMap1) 0 emptyEntry Map.empty
      = eachEntry T sources (split_str (of_char CHR '';'') srcMap2) 0 emptyEntry Map.empty" for T
    by (rule eachEntry_cong)
  then show ?thesis
    by (simp only: parseSourceMap_def)
qed

text \<open>The theorem at two maps of two entries each, one with a jump type left out.\<close>

theorem jump_type_unused_witness:
  "sameButJumpType (js ''0:1:0:-;1:1:0:i'') (js ''0:1:0:o;1:1:0'') \<and>
   parseSourceMap (PlainObject [(0, Some (js ''abc''))]) (js ''0:1:0:-;1:1:0:i'') [(0, 0), (1, 1)]
       [(0, js ''C.sol'')] =
   parseSourceMap (PlainObject [(0, Some (js ''abc''))]) (js ''0:1:0:o;1:1:0'') [(0, 0), (1, 1)]
       [(0, js ''C.sol'')]"
proof -
  have h: "sameButJumpType (js ''0:1:0:-;1:1:0:i'') (js ''0:1:0:o;1:1:0'')" by code_simp
  from h jump_type_unused [OF h] show ?thesis by blast
qed

text \<open>
  C10, as the claim states it, fails: in the array of length 2 whose index 0 is a hole
  and whose index 1 holds "abc", the key 0 is absent, and yet the source map "0:0:0"
  is not left unmapped: the call throws the out-of-range error for "C.sol".
\<close>

theorem absent_key_counterexample:
  "map_of (properties (ArrayLike 2 [(1, Some (js ''abc''))])) 0 = None \<and>
   fileIndex (resolvedEntries (js ''0:0:0'') ! 0) = Num 0 \<and>
   parseSourceMap (ArrayLike 2 [(1, Some (js ''abc''))]) (js ''0:0:0'') [(0, 0)]
       [(0, js ''C.sol'')] =
     Inl (Error (js ''Error while processing sourcemap: location out of range in C.sol''))"
proof -
  let ?r = "parseSourceMap (ArrayLike 2 [(1, Some (js ''abc''))]) (js ''0:0:0'') [(0, 0)]
       [(0, js ''C.sol'')]"
  have a: "map_of (properties (ArrayLike 2 [(1, Some (js ''abc''))])) 0 = None"
    "fileIndex (resolvedEntries (js ''0:0:0'') ! 0) = Num 0"
    by code_simp+
  have "case ?r of
          Inl e \<Rightarrow> e = Error (js ''Error while processing sourcemap: location out of range in C.sol'')
        | Inr pcsToSourceRange \<Rightarrow> False"
    by code_simp
  then have "?r =
     Inl (Error (js ''Error while processing sourcemap: location out of range in C.sol''))"
    by (simp split: sum.splits)
  with a show ?thesis by (intro conjI)
qed

lemma mapVisits_PlainObject: "mapVisits (PlainObject ps) f \<longleftrightarrow> map_of ps f \<noteq> None"
  by (simp add: mapVisits_def map_of_eq_None_iff)

lemma mapVisits_ArrayLike: "mapVisits (ArrayLike n ps) f \<longleftrightarrow> 0 \<le> f \<and> f < int n"
proof
  assume "mapVisits (ArrayLike n ps) f"
  then show "0 \<le> f \<and> f < int n" by (auto simp: mapVisits_def)
next
  assume "0 \<le> f \<and> f < int n"
  then have "nat f \<in> {0..<n}" "f = int (nat f)" by auto
  then have "f \<in> int ` {0..<n}" by (rule_tac image_eqI)
  then show "mapVisits (ArrayLike n ps) f" by (simp add: mapVisits_def)
qed

text \<open>
  C10, amended: let a resolved entry have the file index \<open>f\<close>, which is not the
  sentinel \<open>-1\<close>. If \<open>_.map\<close> visits \<open>f\<close> in \<open>sourceCodes\<close> (\<open>f\<close> is an own
  key of a plain object, or an index below the length of an array) and
  \<open>sourceCodes[f]\<close> is \<open>undefined\<close> (the key holds \<open>undefined\<close>, or the
  index is a hole of the array), the file gets the empty offset table, the entry throws
  the out-of-range error that names the file \<open>f\<close>, and \<open>parseSourceMap\<close> fails
  (with this very error when no earlier entry is out of range). The entry is left
  unmapped without an error when \<open>_.map\<close> does not visit \<open>f\<close>: \<open>f\<close> is no
  key of a plain object, or no index below the length of an array.
\<close>

theorem undefined_source_is_fatal:
  assumes "j < length (resolvedEntries srcMap)"
    and "fileIndex (resolvedEntries srcMap ! j) = Num f"
    and "f \<noteq> - 1"
  shows "(mapVisits sourceCodes f \<and> valueAt sourceCodes f = None \<longrightarrow>
            tablesFor sourceCodes f = Some Map.empty \<and>
            resolveRange (tablesFor sourceCodes) sources (resolvedEntries srcMap ! j) =
              Inl (Error (outOfRangeMessage (map_of sources f))) \<and>
            isl (parseSourceMap sourceCodes srcMap pcToInstructionIndex sources) \<and>
            ((\<forall>k<j. \<not> outOfRange (tablesFor sourceCodes) (resolvedEntries srcMap ! k)) \<longrightarrow>
               parseSourceMap sourceCodes srcMap pcToInstructionIndex sources =
                 Inl (Error (outOfRangeMessage (map_of sources f))))) \<and>
         (\<not> mapVisits sourceCodes f \<longrightarrow>
            tablesFor sourceCodes f = None \<and>
            resolveRange (tablesFor sourceCodes) sources (resolvedEntries srcMap ! j) = Inr None) \<and>
         (mapVisits (PlainObject ps) f \<longleftrightarrow> map_of ps f \<noteq> None) \<and>
         (mapVisits (ArrayLike n ps) f \<longleftrightarrow> 0 \<le> f \<and> f < int n)"
proof (intro conjI impI)
  assume absent: "\<not> mapVisits sourceCodes f"
  then show none: "tablesFor sourceCodes f = None" by (simp add: tablesFor_apply)
  then have "unmapped (tablesFor sourceCodes) (resolvedEntries srcMap ! j)"
    using assms(2) by (simp add: unmapped_def getProp_def)
  then show "resolveRange (tablesFor sourceCodes) sources (resolvedEntries srcMap ! j) = Inr None"
    by (rule resolveRange_unmapped)
next
  assume undef: "mapVisits sourceCodes f \<and> valueAt sourceCodes f = None"
  then show empty: "tablesFor sourceCodes f = Some Map.empty"
    by (simp add: tablesFor_apply tableOfText_None)
  have oor: "outOfRange (tablesFor sourceCodes) (resolvedEntries srcMap ! j)"
    using assms(2,3) empty
    by (cases "offset (resolvedEntries srcMap ! j)") (simp_all add: outOfRange_def getProp_def)
  from resolveRange_outOfRange [OF oor, of sources] assms(2)
  show "resolveRange (tablesFor sourceCodes) sources (resolvedEntries srcMap ! j) =
              Inl (Error (outOfRangeMessage (map_of sources f)))"
    by (simp add: getProp_def)
  from decode_first_failure [OF assms(1) oor, of pcToInstructionIndex sources]
  obtain k where k: "k \<le> j" "outOfRange (tablesFor sourceCodes) (resolvedEntries srcMap ! k)"
    "parseSourceMap sourceCodes srcMap pcToInstructionIndex sources =
       Inl (Error (outOfRangeMessage (getProp (map_of sources) (fileIndex (resolvedEntries srcMap ! k)))))"
    by blast
  from k(3) show "isl (parseSourceMap sourceCodes srcMap pcToInstructionIndex sources)" by simp
  assume first: "\<forall>k<j. \<not> outOfRange (tablesFor sourceCodes) (resolvedEntries srcMap ! k)"
  with k(1,2) have "k = j" by (cases "k < j") auto
  with k(3) assms(2) show "parseSourceMap sourceCodes srcMap pcToInstructionIndex sources =
                 Inl (Error (outOfRangeMessage (map_of sources f)))"
    by (simp add: getProp_def)
next
  show "mapVisits (PlainObject ps) f \<longleftrightarrow> map_of ps f \<noteq> None"
    by (rule mapVisits_PlainObject)
next
  show "mapVisits (ArrayLike n ps) f \<longleftrightarrow> 0 \<le> f \<and> f < int n"
    by (rule mapVisits_ArrayLike)
qed

text \<open>
  The theorem at the source map "0:0:0", with \<open>sourceCodes\<close> the plain object that
  holds \<open>undefined\<close> at the key 0, the array of length 2 with a hole at index 0, and
  the empty plain object.
\<close>

theorem undefined_source_is_fatal_witness:
  "0 < length (resolvedEntries (js ''0:0:0'')) \<and>
   fileIndex (resolvedEntries (js ''0:0:0'') ! 0) = Num 0 \<and> (0::int) \<noteq> - 1 \<and>
   mapVisits (PlainObject [(0, None :: jsstring option)]) 0 \<and>
   valueAt (PlainObject [(0, None :: jsstring option)]) 0 = None \<and>
   parseSourceMap (PlainObject [(0, None)]) (js ''0:0:0'') [(0, 0)] [(0, js ''C.sol'')] =
     Inl (Error (outOfRangeMessage (Some (js ''C.sol'')))) \<and>
   mapVisits (ArrayLike 2 [(1, Some (js ''abc''))]) 0 \<and>
   valueAt (ArrayLike 2 [(1, Some (js ''abc''))]) 0 = None \<and>
   parseSourceMap (ArrayLike 2 [(1, Some (js ''abc''))]) (js ''0:0:0'') [(0, 0)]
       [(0, js ''C.sol'')] =
     Inl (Error (outOfRangeMessage (Some (js ''C.sol'')))) \<and>
   \<not> mapVisits (PlainObject ([] :: (int \<times> jsstring option) list)) 0 \<and>
   resolveRange (tablesFor (PlainObject [])) [(0, js ''C.sol'')]
     (resolvedEntries (js ''0:0:0'') ! 0) = Inr None"
proof -
  let ?src = "[(0, js ''C.sol'')]" and ?pcs = "[(0, 0)] :: (nat \<times> nat) list"
  have h1: "0 < length (resolvedEntries (js ''0:0:0''))" by code_simp
  have h2: "fileIndex (resolvedEntries (js ''0:0:0'') ! 0) = Num 0" by code_simp
  have h3: "(0::int) \<noteq> - 1" by simp
  have name: "map_of ?src 0 = Some (js ''C.sol'')" by simp
  have a: "mapVisits (PlainObject [(0, None :: jsstring option)]) 0 \<and>
      valueAt (PlainObject [(0, None :: jsstring option)]) 0 = None"
    by (simp add: mapVisits_def valueAt_def)
  from undefined_source_is_fatal
      [OF h1 h2 h3, of "PlainObject [(0, None)]" ?src ?pcs "[]" 0, THEN conjunct1, THEN mp, OF a]
  have a': "parseSourceMap (PlainObject [(0, None)]) (js ''0:0:0'') ?pcs ?src =
     Inl (Error (outOfRangeMessage (map_of ?src 0)))"
    by simp
  have b: "mapVisits (ArrayLike 2 [(1, Some (js ''abc''))]) 0 \<and>
      valueAt (ArrayLike 2 [(1, Some (js ''abc''))]) 0 = None"
    by (simp add: mapVisits_def valueAt_def)
  from undefined_source_is_fatal
      [OF h1 h2 h3, of "ArrayLike 2 [(1, Some (js ''abc''))]" ?src ?pcs "[]" 0,
       THEN conjunct1, THEN mp, OF b]
  have b': "parseSourceMap (ArrayLike 2 [(1, Some (js ''abc''))]) (js ''0:0:0'') ?pcs ?src =
     Inl (Error (outOfRangeMessage (map_of ?src 0)))"
    by simp
  have c: "\<not> mapVisits (PlainObject ([] :: (int \<times> jsstring option) list)) 0"
    by (simp add: mapVisits_def)
  from undefined_source_is_fatal
      [OF h1 h2 h3, of "PlainObject []" ?src ?pcs "[]" 0,
       THEN conjunct2, THEN conjunct1, THEN mp, OF c]
  have c': "resolveRange (tablesFor (PlainObject [])) ?src (resolvedEntries (js ''0:0:0'') ! 0)
      = Inr None"
    by simp
  from h1 h2 h3 a a' b b' c c' show ?thesis unfolding name by simp
qed


end
